theory Spec2Isabelle
  imports Main "HOL-Library.List_Lexorder" "HOL-Library.Char_ord" "HOL-Library.Multiset"
begin

section \<open>Data model of the Google Drive connector\<close>

text \<open>
  The connector functions of \<^verbatim>\<open>connectors/google_drive/index.ts\<close> and the webhook
  handler work on rows of a relational store through an ORM. Each table is a list of
  rows in storage order; a query is a \<open>filter\<close> or a \<open>find\<close> over that list.
\<close>

type_synonym ModelId = int

text \<open>
  A JavaScript function ends in one of three ways: it returns \<^verbatim>\<open>new Ok(v)\<close>, it returns
  \<^verbatim>\<open>new Err(new Error(msg))\<close>, or it throws (the promise rejects). The last two are the
  two constructors of \<open>failure\<close>; a result is \<open>failure + 'a\<close>.
\<close>

datatype failure = Err string | Thrown string

text \<open>
  Field names follow the source; \<open>id'\<close> and \<open>type'\<close> are the connector's \<^verbatim>\<open>id\<close> and
  \<^verbatim>\<open>type\<close>, \<open>isPaused\<close> is what \<^verbatim>\<open>connector.isPaused()\<close> answers.
\<close>

record ConnectorResource =
  id' :: ModelId
  type' :: string
  connectionId :: string
  isPaused :: bool

record GoogleDriveFolders =
  connectorId :: ModelId
  folderId :: string

record GoogleDriveFiles =
  fileConnectorId :: ModelId
  driveFileId :: string
  name :: string
  parentId :: "string option"
  lastUpsertedTs :: "int option"

record GoogleDriveWebhook =
  webhookId :: string
  webhookConnectorId :: ModelId

text \<open>
  The calls made to the workflow client (\<^verbatim>\<open>temporal/client\<close>) are kept in a log, in
  call order: the second argument of a full sync is the start cursor (\<^verbatim>\<open>null\<close> here).
\<close>

datatype WorkflowCall =
    FullSyncWorkflow ModelId "string option"
  | IncrementalSyncWorkflow ModelId

record state =
  connectors :: "ConnectorResource list"
  googleDriveFolders :: "GoogleDriveFolders list"
  googleDriveFiles :: "GoogleDriveFiles list"
  googleDriveWebhooks :: "GoogleDriveWebhook list"
  workflowCalls :: "WorkflowCall list"

definition fetchById :: "ModelId \<Rightarrow> state \<Rightarrow> ConnectorResource option" where
  "fetchById cid s = find (\<lambda>c. id' c = cid) (connectors s)"

text \<open>
  Template strings render a \<^verbatim>\<open>ModelId\<close> in decimal, with a minus sign when negative.
\<close>

fun show_nat :: "nat \<Rightarrow> string" where
  "show_nat n =
     (if n < 10 then [char_of (48 + n)]
      else show_nat (n div 10) @ [char_of (48 + n mod 10)])"

definition show_int :: "int \<Rightarrow> string" where
  "show_int i = (if i < 0 then CHR ''-'' # show_nat (nat (- i)) else show_nat (nat i))"

section \<open>setGoogleDriveConnectorPermissions\<close>

text \<open>
  \<^verbatim>\<open>GoogleDriveFolders.destroy({where: {connectorId, folderId}})\<close> deletes every matching
  row.
\<close>

definition destroyFolder :: "ModelId \<Rightarrow> string \<Rightarrow> GoogleDriveFolders list \<Rightarrow> GoogleDriveFolders list" where
  "destroyFolder cid fid rows = filter (\<lambda>f. \<not> (connectorId f = cid \<and> folderId f = fid)) rows"

text \<open>
  Modelled from the spec: \<^verbatim>\<open>GoogleDriveFolders.upsert\<close> and the key of the table are
  declared in \<^verbatim>\<open>lib/models/google_drive\<close>, outside the sources at hand. The spec has
  \<^verbatim>\<open>"read"\<close> idempotently create the folder row of (connector, folder):
  \<^verbatim>\<open>upsert({connectorId, folderId})\<close> inserts the row unless a row with that key is there
  already (the row has no other column to update).
\<close>

definition upsertFolder :: "ModelId \<Rightarrow> string \<Rightarrow> GoogleDriveFolders list \<Rightarrow> GoogleDriveFolders list" where
  "upsertFolder cid fid rows =
     (if find (\<lambda>f. connectorId f = cid \<and> folderId f = fid) rows = None
      then rows @ [\<lparr>connectorId = cid, folderId = fid\<rparr>]
      else rows)"

definition invalidPermissionMessage :: "string \<Rightarrow> string \<Rightarrow> string" where
  "invalidPermissionMessage permission nid =
     ''Invalid permission '' @ permission @ '' for node '' @ nid"

text \<open>
  The \<^verbatim>\<open>for (const [id, permission] of Object.entries(permissions))\<close> loop. The batch is
  the list \<^verbatim>\<open>Object.entries(permissions)\<close>, in its iteration order. The loop carries
  \<^verbatim>\<open>shouldFullSync\<close> and the folder table; an entry that is neither \<^verbatim>\<open>"none"\<close> nor
  \<^verbatim>\<open>"read"\<close> returns the error from inside the loop, with the table as it is then.
\<close>

fun permissionsLoop ::
  "ModelId \<Rightarrow> (string \<times> string) list \<Rightarrow> bool \<Rightarrow> GoogleDriveFolders list
     \<Rightarrow> (failure + bool) \<times> GoogleDriveFolders list" where
  "permissionsLoop cid [] shouldFullSync rows = (Inr shouldFullSync, rows)"
| "permissionsLoop cid ((nid, permission) # rest) shouldFullSync rows =
     (if permission = ''none'' then permissionsLoop cid rest True (destroyFolder cid nid rows)
      else if permission = ''read'' then permissionsLoop cid rest True (upsertFolder cid nid rows)
      else (Inl (Err (invalidPermissionMessage permission nid)), rows))"

definition setGoogleDriveConnectorPermissions ::
  "ModelId \<Rightarrow> (string \<times> string) list \<Rightarrow> state \<Rightarrow> (failure + unit) \<times> state" where
  "setGoogleDriveConnectorPermissions cid permissions s =
     (case fetchById cid s of
        None \<Rightarrow> (Inl (Err (''Connector not found with id '' @ show_int cid)), s)
      | Some connector \<Rightarrow>
          (case permissionsLoop cid permissions False (googleDriveFolders s) of
             (Inl e, rows) \<Rightarrow> (Inl e, s\<lparr>googleDriveFolders := rows\<rparr>)
           | (Inr shouldFullSync, rows) \<Rightarrow>
               (Inr (),
                s\<lparr>googleDriveFolders := rows,
                  workflowCalls :=
                    (if shouldFullSync
                     then workflowCalls s @ [FullSyncWorkflow cid None]
                     else workflowCalls s)\<rparr>)))"

text \<open>
  The two values the loop accepts, and the rows of the folder table for one folder of one
  connector.
\<close>

definition validPermission :: "string \<times> string \<Rightarrow> bool" where
  "validPermission e \<longleftrightarrow> snd e = ''none'' \<or> snd e = ''read''"

definition folderRows :: "ModelId \<Rightarrow> string \<Rightarrow> state \<Rightarrow> GoogleDriveFolders list" where
  "folderRows cid fid s =
     filter (\<lambda>f. connectorId f = cid \<and> folderId f = fid) (googleDriveFolders s)"

section \<open>retrieveGoogleDriveObjectsTitles\<close>

text \<open>
  The accumulator of the \<^verbatim>\<open>reduce\<close> is a plain object, \<^verbatim>\<open>{} as Record<string, string>\<close>;
  a map from keys to values stands for its own properties. An assignment \<^verbatim>\<open>acc[k] = v\<close>
  of a string adds or overwrites the own property \<^verbatim>\<open>k\<close>, except for the key
  \<^verbatim>\<open>__proto__\<close>: that one is the accessor of \<^verbatim>\<open>Object.prototype\<close>, whose setter ignores a
  string, so the object gets no property.
\<close>

definition setProperty :: "(string \<rightharpoonup> string) \<Rightarrow> string \<Rightarrow> string \<Rightarrow> (string \<rightharpoonup> string)" where
  "setProperty acc k v = (if k = ''__proto__'' then acc else acc(k \<mapsto> v))"

text \<open>
  \<^verbatim>\<open>GoogleDriveFiles.findAll({where: {connectorId, driveFileId: internalIds}})\<close> followed
  by the \<^verbatim>\<open>reduce\<close> that stores \<^verbatim>\<open>acc[curr.driveFileId] = curr.name\<close>. The function reads
  the file table only and takes no handle on the remote API.
\<close>

definition retrieveGoogleDriveObjectsTitles ::
  "ModelId \<Rightarrow> string list \<Rightarrow> state \<Rightarrow> failure + (string \<rightharpoonup> string)" where
  "retrieveGoogleDriveObjectsTitles cid internalIds s =
     (let googleDriveFiles =
            filter (\<lambda>f. fileConnectorId f = cid \<and> driveFileId f \<in> set internalIds)
              (googleDriveFiles s);
          titles = foldl (\<lambda>acc curr. setProperty acc (driveFileId curr) (name curr)) Map.empty
                     googleDriveFiles
      in Inr titles)"

section \<open>The webhook handler\<close>

text \<open>
  The request carries the \<^verbatim>\<open>x-goog-channel-id\<close> header and the \<^verbatim>\<open>connector_id\<close> route
  parameter, each absent or a string. The response is a status code and, when it was sent
  through \<^verbatim>\<open>apiError\<close>, the error's message and type.
\<close>

record Request =
  x_goog_channel_id :: "string option"
  connector_id :: "string option"

record Response =
  status_code :: nat
  api_error :: "(string \<times> string) option"

datatype WorkflowError = RateLimitError string | OtherError string

definition apiError :: "nat \<Rightarrow> string \<Rightarrow> string \<Rightarrow> Response" where
  "apiError code msg ty = \<lparr>status_code = code, api_error = Some (msg, ty)\<rparr>"

definition status200 :: Response where
  "status200 = \<lparr>status_code = 200, api_error = None\<rparr>"

text \<open>
  The connector id comes from the stored webhook of that channel id and, when there is
  none, from the route parameter. Two collaborators are parameters: \<open>parseInt\<close> is the
  JavaScript built-in (\<open>None\<close> is \<^verbatim>\<open>NaN\<close>), \<open>launch\<close> is what
  \<^verbatim>\<open>launchGoogleDriveIncrementalSyncWorkflow\<close> answers for a connector id.
  \<^verbatim>\<open>!channelId\<close> holds for a missing and for an empty header; \<^verbatim>\<open>!connectorId\<close> holds for
  \<^verbatim>\<open>null\<close>, \<^verbatim>\<open>NaN\<close> and \<^verbatim>\<open>0\<close>.
\<close>

definition resolveConnectorId ::
  "(string \<Rightarrow> int option) \<Rightarrow> Request \<Rightarrow> string \<Rightarrow> state \<Rightarrow> ModelId option" where
  "resolveConnectorId parseInt req channelId s =
     (case find (\<lambda>w. webhookId w = channelId) (googleDriveWebhooks s) of
        Some webhook \<Rightarrow> Some (webhookConnectorId webhook)
      | None \<Rightarrow>
          (case connector_id req of
             None \<Rightarrow> None
           | Some p \<Rightarrow> if p = [] then None else parseInt p))"

text \<open>
  The second half of the handler, from \<^verbatim>\<open>ConnectorResource.fetchById\<close> on: what it does
  once it has a connector id.
\<close>

definition notifyConnector ::
  "(ModelId \<Rightarrow> WorkflowError + string) \<Rightarrow> ModelId \<Rightarrow> state \<Rightarrow> Response \<times> state" where
  "notifyConnector launch cid s =
     (case fetchById cid s of
        None \<Rightarrow> (apiError 404 ''Connector not found'' ''invalid_request_error'', s)
      | Some connector \<Rightarrow>
          if isPaused connector then (status200, s)
          else
            let s' = s\<lparr>workflowCalls := workflowCalls s @ [IncrementalSyncWorkflow cid]\<rparr>
            in (case launch cid of
                  Inl (RateLimitError m) \<Rightarrow> (status200, s')
                | Inl (OtherError m) \<Rightarrow>
                    (apiError 500
                       (''Failed starting the incremental sync workflow. Error: '' @ m)
                       ''internal_server_error'', s')
                | Inr w \<Rightarrow> (status200, s')))"

definition unresolvedConnectorError :: Response where
  "unresolvedConnectorError =
     apiError 400 ''Could not determine connectorId from webhook'' ''invalid_request_error''"

definition webhookGoogleDriveAPIHandler ::
  "(string \<Rightarrow> int option) \<Rightarrow> (ModelId \<Rightarrow> WorkflowError + string) \<Rightarrow> Request \<Rightarrow> state
     \<Rightarrow> Response \<times> state" where
  "webhookGoogleDriveAPIHandler parseInt launch req s =
     (case x_goog_channel_id req of
        None \<Rightarrow> (apiError 400 ''Missing x-goog-channel-id header'' ''invalid_request_error'', s)
      | Some channelId \<Rightarrow>
          if channelId = [] then
            (apiError 400 ''Missing x-goog-channel-id header'' ''invalid_request_error'', s)
          else
            (case resolveConnectorId parseInt req channelId s of
               None \<Rightarrow> (unresolvedConnectorError, s)
             | Some cid \<Rightarrow>
                 if cid = 0 then (unresolvedConnectorError, s)
                 else notifyConnector launch cid s))"

section \<open>retrieveGoogleDriveConnectorPermissions\<close>

text \<open>
  Modelled from the spec: the type \<^verbatim>\<open>ConnectorNodeType\<close> is declared outside the sources
  at hand. The spec's data model gives a node the kinds folder and file, and the function
  itself only writes and tests \<^verbatim>\<open>"folder"\<close>.
\<close>

datatype ConnectorNodeType = Folder | File

text \<open>
  A node of the permission tree, with the fields the function fills in. \<open>nodeType\<close> is the
  source's \<^verbatim>\<open>type\<close>.
\<close>

record ConnectorNode =
  provider :: string
  internalId :: string
  parentInternalId :: "string option"
  nodeType :: ConnectorNodeType
  title :: string
  sourceUrl :: "string option"
  dustDocumentId :: "string option"
  lastUpdatedAt :: "int option"
  expandable :: bool
  permission :: string

text \<open>
  What the remote API knows of an object (\<open>objectId\<close> and \<open>objectName\<close> are its \<^verbatim>\<open>id\<close> and
  \<^verbatim>\<open>name\<close>), an entry of a listing page, and a page of \<^verbatim>\<open>drive.files.list\<close>.
\<close>

record GoogleDriveObjectType =
  objectId :: string
  objectName :: string
  parent :: "string option"
  webViewLink :: "string option"
  updatedAtMs :: "int option"

record SchemaFile =
  fileId :: "string option"
  fileName :: "string option"

record FileList =
  status :: int
  statusText :: string
  files :: "SchemaFile list option"
  nextPageToken :: "string option"

text \<open>
  The collaborators of the function that are not part of it: the remote API, the helpers
  of \<^verbatim>\<open>temporal/activities\<close>, \<^verbatim>\<open>temporal/utils\<close> and \<^verbatim>\<open>lib/permissions\<close>, and the string
  comparison \<^verbatim>\<open>String.prototype.localeCompare\<close> of the JavaScript runtime. A call that can
  throw answers \<open>Inl\<close>. \<open>getGoogleDriveObject\<close> answers \<open>Inr None\<close> for an object the
  remote API does not have (404).
\<close>

record runtime =
  getAuthObject :: "string \<Rightarrow> failure + string"
  getGoogleDriveObject :: "string \<Rightarrow> string \<Rightarrow> failure + GoogleDriveObjectType option"
  getDrivesIds :: "ModelId \<Rightarrow> failure + string list"
  folderHasChildren :: "ModelId \<Rightarrow> string \<Rightarrow> failure + bool"
  getDriveClient :: "string \<Rightarrow> failure + string"
  filesList :: "string \<Rightarrow> string \<Rightarrow> string option \<Rightarrow> failure + FileList"
  driveObjectToDustType :: "SchemaFile \<Rightarrow> string \<Rightarrow> failure + GoogleDriveObjectType"
  getPermissionViewType :: "GoogleDriveFiles \<Rightarrow> ConnectorNodeType"
  getGoogleDriveEntityDocumentId :: "GoogleDriveFiles \<Rightarrow> string option"
  localeCompare :: "string \<Rightarrow> string \<Rightarrow> int"

text \<open>
  \<^verbatim>\<open>x || null\<close> on an optional number and on an optional string: \<^verbatim>\<open>undefined\<close>, \<^verbatim>\<open>0\<close>
  and the empty string are falsy.
\<close>

definition numberOrNull :: "int option \<Rightarrow> int option" where
  "numberOrNull x = (if x = Some 0 then None else x)"

definition stringOrNull :: "string option \<Rightarrow> string option" where
  "stringOrNull x = (if x = Some [] then None else x)"

text \<open>
  \<^verbatim>\<open>concurrentExecutor\<close> and \<^verbatim>\<open>Promise.all\<close> over \<^verbatim>\<open>map\<close>: the results in the order of
  the inputs, or a rejection when a task throws (here the first one in input order; the
  tasks only read). \<^verbatim>\<open>removeNulls\<close> drops the \<^verbatim>\<open>null\<close> entries.
\<close>

fun concurrentExecutor :: "'a list \<Rightarrow> ('a \<Rightarrow> failure + 'b) \<Rightarrow> failure + 'b list" where
  "concurrentExecutor [] f = Inr []"
| "concurrentExecutor (x # xs) f =
     (case f x of
        Inl e \<Rightarrow> Inl e
      | Inr y \<Rightarrow>
          (case concurrentExecutor xs f of
             Inl e \<Rightarrow> Inl e
           | Inr ys \<Rightarrow> Inr (y # ys)))"

definition removeNulls :: "'a option list \<Rightarrow> 'a list" where
  "removeNulls xs = List.map_filter (\<lambda>x. x) xs"

text \<open>
  \<^verbatim>\<open>Array.prototype.sort\<close> with a comparator. For a consistent comparator the language
  fixes the result: the stable sort of the array (an element goes before another when the
  comparator is negative, and equal elements keep their order). Insertion from the right
  computes it.
\<close>

fun insertSorted :: "('a \<Rightarrow> 'a \<Rightarrow> int) \<Rightarrow> 'a \<Rightarrow> 'a list \<Rightarrow> 'a list" where
  "insertSorted cmp x [] = [x]"
| "insertSorted cmp x (y # ys) =
     (if cmp x y \<le> 0 then x # y # ys else y # insertSorted cmp x ys)"

definition arraySort :: "('a \<Rightarrow> 'a \<Rightarrow> int) \<Rightarrow> 'a list \<Rightarrow> 'a list" where
  "arraySort cmp xs = foldr (insertSorted cmp) xs []"

text \<open>The two comparators of the source: by title, and folders first then by title.\<close>

definition compareTitle :: "(string \<Rightarrow> string \<Rightarrow> int) \<Rightarrow> ConnectorNode \<Rightarrow> ConnectorNode \<Rightarrow> int" where
  "compareTitle lc a b = lc (title a) (title b)"

definition compareTypeTitle :: "(string \<Rightarrow> string \<Rightarrow> int) \<Rightarrow> ConnectorNode \<Rightarrow> ConnectorNode \<Rightarrow> int" where
  "compareTypeTitle lc a b =
     (if nodeType a \<noteq> nodeType b then (if nodeType a = Folder then - 1 else 1)
      else lc (title a) (title b))"

text \<open>
  The \<^verbatim>\<open>do ... while (nextPageToken)\<close> loop over the pages of the remote listing. It ends
  when a page has no (or an empty) next page token or when a page is an error; a remote
  that always hands out a token keeps it running, which is the value \<open>None\<close>.
\<close>

partial_function (option) listRemoteFolders ::
  "runtime \<Rightarrow> string \<Rightarrow> string \<Rightarrow> string option \<Rightarrow> SchemaFile list
     \<Rightarrow> (failure + SchemaFile list) option" where
  "listRemoteFolders rt drive parentFolderId pageToken remoteFolders =
     (case filesList rt drive parentFolderId pageToken of
        Inl e \<Rightarrow> Some (Inl e)
      | Inr res \<Rightarrow>
          if status res \<noteq> 200 then
            Some (Inl (Thrown (''Error getting files. status_code: '' @ show_int (status res)
                                @ ''. status_text: '' @ statusText res)))
          else
            (case files res of
               None \<Rightarrow> Some (Inl (Thrown ''Files list is undefined''))
             | Some fs \<Rightarrow>
                 (case stringOrNull (nextPageToken res) of
                    None \<Rightarrow> Some (Inr (remoteFolders @ fs))
                  | Some token \<Rightarrow>
                      listRemoteFolders rt drive parentFolderId (Some token)
                        (remoteFolders @ fs))))"

declare listRemoteFolders.simps [code]

text \<open>
  The node constructions of the four branches. A title \<^verbatim>\<open>name || ""\<close> is the name itself,
  the name being a string. \<open>hasLocalChild\<close> and \<open>hasFolderRow\<close> are the two
  \<^verbatim>\<open>findOne(...) !== null\<close> tests.
\<close>

definition hasLocalChild :: "ModelId \<Rightarrow> string \<Rightarrow> state \<Rightarrow> bool" where
  "hasLocalChild cid pid s =
     (find (\<lambda>x. fileConnectorId x = cid \<and> parentId x = Some pid) (googleDriveFiles s) \<noteq> None)"

definition hasFolderRow :: "ModelId \<Rightarrow> string \<Rightarrow> state \<Rightarrow> bool" where
  "hasFolderRow cid fid s =
     (find (\<lambda>f. connectorId f = cid \<and> folderId f = fid) (googleDriveFolders s) \<noteq> None)"

definition selectedFolderNode ::
  "runtime \<Rightarrow> ConnectorResource \<Rightarrow> string \<Rightarrow> ModelId \<Rightarrow> state \<Rightarrow> GoogleDriveFolders
     \<Rightarrow> failure + ConnectorNode option" where
  "selectedFolderNode rt c authCredentials cid s f =
     (case getGoogleDriveObject rt authCredentials (folderId f) of
        Inl e \<Rightarrow> Inl e
      | Inr None \<Rightarrow> Inr None
      | Inr (Some fd) \<Rightarrow>
          Inr (Some \<lparr>provider = type' c, internalId = folderId f, parentInternalId = None,
                     nodeType = Folder, title = objectName fd, sourceUrl = None,
                     dustDocumentId = None, lastUpdatedAt = numberOrNull (updatedAtMs fd),
                     expandable = hasLocalChild cid (folderId f) s,
                     permission = ''read''\<rparr>))"

definition syncedChildNode ::
  "runtime \<Rightarrow> ConnectorResource \<Rightarrow> ModelId \<Rightarrow> state \<Rightarrow> GoogleDriveFiles
     \<Rightarrow> failure + ConnectorNode" where
  "syncedChildNode rt c cid s f =
     Inr \<lparr>provider = type' c, internalId = driveFileId f, parentInternalId = None,
          nodeType = getPermissionViewType rt f, title = name f, sourceUrl = None,
          dustDocumentId = getGoogleDriveEntityDocumentId rt f,
          lastUpdatedAt = numberOrNull (lastUpsertedTs f),
          expandable = hasLocalChild cid (driveFileId f) s,
          permission = ''read''\<rparr>"

definition remoteObjectNode ::
  "runtime \<Rightarrow> ConnectorResource \<Rightarrow> ModelId \<Rightarrow> state \<Rightarrow> GoogleDriveObjectType
     \<Rightarrow> failure + ConnectorNode" where
  "remoteObjectNode rt c cid s driveObject =
     (case folderHasChildren rt cid (objectId driveObject) of
        Inl e \<Rightarrow> Inl e
      | Inr hasChildren \<Rightarrow>
          Inr \<lparr>provider = type' c, internalId = objectId driveObject,
               parentInternalId = parent driveObject, nodeType = Folder,
               title = objectName driveObject,
               sourceUrl = stringOrNull (webViewLink driveObject), dustDocumentId = None,
               lastUpdatedAt = numberOrNull (updatedAtMs driveObject),
               expandable = hasChildren,
               permission = (if hasFolderRow cid (objectId driveObject) s then ''read''
                             else ''none'')\<rparr>)"

definition sharedDriveNode ::
  "runtime \<Rightarrow> ConnectorResource \<Rightarrow> string \<Rightarrow> ModelId \<Rightarrow> state \<Rightarrow> string
     \<Rightarrow> failure + ConnectorNode" where
  "sharedDriveNode rt c authCredentials cid s d =
     (case getGoogleDriveObject rt authCredentials d of
        Inl e \<Rightarrow> Inl e
      | Inr None \<Rightarrow> Inl (Thrown (''Drive '' @ d @ '' unexpectedly not found (got 404).''))
      | Inr (Some driveObject) \<Rightarrow> remoteObjectNode rt c cid s driveObject)"

definition remoteFolderNode ::
  "runtime \<Rightarrow> ConnectorResource \<Rightarrow> string \<Rightarrow> ModelId \<Rightarrow> state \<Rightarrow> SchemaFile
     \<Rightarrow> failure + ConnectorNode" where
  "remoteFolderNode rt c authCredentials cid s rf =
     (case driveObjectToDustType rt rf authCredentials of
        Inl e \<Rightarrow> Inl e
      | Inr driveObject \<Rightarrow> remoteObjectNode rt c cid s driveObject)"

text \<open>
  The four branches, by \<^verbatim>\<open>filterPermission\<close> (\<^verbatim>\<open>"read"\<close> or \<^verbatim>\<open>null\<close>) and
  \<^verbatim>\<open>parentInternalId\<close> (\<^verbatim>\<open>null\<close> or an id). Each builds its nodes, sorts them and
  returns \<^verbatim>\<open>new Ok(nodes)\<close>; a collaborator that throws ends the call.
\<close>

definition sortedOk ::
  "(ConnectorNode \<Rightarrow> ConnectorNode \<Rightarrow> int) \<Rightarrow> failure + ConnectorNode list
     \<Rightarrow> (failure + ConnectorNode list) option" where
  "sortedOk cmp r = (case r of Inl e \<Rightarrow> Some (Inl e) | Inr nodes \<Rightarrow> Some (Inr (arraySort cmp nodes)))"

definition readSelectedFolders ::
  "runtime \<Rightarrow> ConnectorResource \<Rightarrow> string \<Rightarrow> ModelId \<Rightarrow> state
     \<Rightarrow> (failure + ConnectorNode list) option" where
  "readSelectedFolders rt c authCredentials cid s =
     (let folders = filter (\<lambda>f. connectorId f = cid) (googleDriveFolders s)
      in sortedOk (compareTitle (localeCompare rt))
           (map_sum (\<lambda>e. e) removeNulls
              (concurrentExecutor folders (selectedFolderNode rt c authCredentials cid s))))"

definition readChildren ::
  "runtime \<Rightarrow> ConnectorResource \<Rightarrow> ModelId \<Rightarrow> string \<Rightarrow> state
     \<Rightarrow> (failure + ConnectorNode list) option" where
  "readChildren rt c cid pid s =
     (let folderOrFiles =
            filter (\<lambda>f. fileConnectorId f = cid \<and> parentId f = Some pid) (googleDriveFiles s)
      in sortedOk (compareTypeTitle (localeCompare rt))
           (concurrentExecutor folderOrFiles (syncedChildNode rt c cid s)))"

definition discoverDrives ::
  "runtime \<Rightarrow> ConnectorResource \<Rightarrow> string \<Rightarrow> ModelId \<Rightarrow> state
     \<Rightarrow> (failure + ConnectorNode list) option" where
  "discoverDrives rt c authCredentials cid s =
     (case getDrivesIds rt (id' c) of
        Inl e \<Rightarrow> Some (Inl e)
      | Inr drives \<Rightarrow>
          sortedOk (compareTitle (localeCompare rt))
            (concurrentExecutor drives (sharedDriveNode rt c authCredentials cid s)))"

definition discoverFolders ::
  "runtime \<Rightarrow> ConnectorResource \<Rightarrow> string \<Rightarrow> ModelId \<Rightarrow> string \<Rightarrow> state
     \<Rightarrow> (failure + ConnectorNode list) option" where
  "discoverFolders rt c authCredentials cid pid s =
     (case getDriveClient rt authCredentials of
        Inl e \<Rightarrow> Some (Inl e)
      | Inr drive \<Rightarrow>
          (case listRemoteFolders rt drive pid None [] of
             None \<Rightarrow> None
           | Some (Inl e) \<Rightarrow> Some (Inl e)
           | Some (Inr remoteFolders) \<Rightarrow>
               sortedOk (compareTitle (localeCompare rt))
                 (concurrentExecutor remoteFolders
                    (remoteFolderNode rt c authCredentials cid s))))"

definition retrieveGoogleDriveConnectorPermissions ::
  "runtime \<Rightarrow> ModelId \<Rightarrow> string option \<Rightarrow> string option \<Rightarrow> state
     \<Rightarrow> (failure + ConnectorNode list) option" where
  "retrieveGoogleDriveConnectorPermissions rt cid parentNodeId filterPermission s =
     (case fetchById cid s of
        None \<Rightarrow> Some (Inl (Err ''Connector not found''))
      | Some c \<Rightarrow>
          (case getAuthObject rt (connectionId c) of
             Inl e \<Rightarrow> Some (Inl e)
           | Inr authCredentials \<Rightarrow>
               (case filterPermission of
                  Some fp \<Rightarrow>
                    if fp = ''read'' then
                      (case parentNodeId of
                         None \<Rightarrow> readSelectedFolders rt c authCredentials cid s
                       | Some pid \<Rightarrow> readChildren rt c cid pid s)
                    else Some (Inl (Err (''Invalid permission: '' @ fp)))
                | None \<Rightarrow>
                    (case parentNodeId of
                       None \<Rightarrow> discoverDrives rt c authCredentials cid s
                     | Some pid \<Rightarrow> discoverFolders rt c authCredentials cid pid s))))"

text \<open>
  A comparator is consistent when swapping its arguments swaps the sign of its answer and
  "not after" is transitive. \<^verbatim>\<open>localeCompare\<close> is one, whatever the locale.
\<close>

definition consistentComparator :: "('a \<Rightarrow> 'a \<Rightarrow> int) \<Rightarrow> bool" where
  "consistentComparator cmp \<longleftrightarrow>
     (\<forall>a b. (cmp a b < 0) = (0 < cmp b a)) \<and>
     (\<forall>a b c. cmp a b \<le> 0 \<and> cmp b c \<le> 0 \<longrightarrow> cmp a c \<le> 0)"

text \<open>
  The order a result is claimed to have: no file before a folder, and titles of the same
  kind not decreasing in the order \<open>le\<close> on titles.
\<close>

definition foldersFirstThenTitle :: "(string \<Rightarrow> string \<Rightarrow> bool) \<Rightarrow> ConnectorNode list \<Rightarrow> bool" where
  "foldersFirstThenTitle le nodes =
     sorted_wrt (\<lambda>a b. (nodeType a = Folder \<or> nodeType b = File) \<and>
                        (nodeType a = nodeType b \<longrightarrow> le (title a) (title b))) nodes"

text \<open>
  A comparator on titles made of letters: alphabetical without regard to case first, and
  the lower-case letter first where two titles differ by case only. It orders
  \<open>''a''\<close> before \<open>''B''\<close>, as \<^verbatim>\<open>"a".localeCompare("B")\<close> does, where the order of the
  character codes has \<open>''B''\<close> first.
\<close>

definition toLowerCase :: "char \<Rightarrow> char" where
  "toLowerCase ch =
     (if CHR ''A'' \<le> ch \<and> ch \<le> CHR ''Z'' then char_of (of_char ch + (32::nat)) else ch)"

definition lettersCompare :: "string \<Rightarrow> string \<Rightarrow> int" where
  "lettersCompare a b =
     (if map toLowerCase a < map toLowerCase b then - 1
      else if map toLowerCase b < map toLowerCase a then 1
      else if b < a then - 1
      else if a < b then 1
      else 0)"

section \<open>A small world to run the functions on\<close>

text \<open>
  Connector 1 is active and connector 2 is paused. Connector 1 has selected the folders
  \<open>F1\<close> (known to the remote API as "Docs v2") and \<open>F9\<close> (gone from the remote API), and
  has mirrored three children of \<open>F1\<close>: the files \<open>x1\<close> ("B") and \<open>x2\<close> ("a") and the folder
  \<open>x3\<close> ("zz"). The runtime compares titles with \<open>lettersCompare\<close>.
\<close>

definition exampleState :: state where
  "exampleState =
     \<lparr>connectors =
        [\<lparr>id' = 1, type' = ''google_drive'', connectionId = ''conn-1'', isPaused = False\<rparr>,
         \<lparr>id' = 2, type' = ''google_drive'', connectionId = ''conn-2'', isPaused = True\<rparr>],
      googleDriveFolders =
        [\<lparr>connectorId = 1, folderId = ''F1''\<rparr>, \<lparr>connectorId = 1, folderId = ''F9''\<rparr>],
      googleDriveFiles =
        [\<lparr>fileConnectorId = 1, driveFileId = ''x1'', name = ''B'', parentId = Some ''F1'',
          lastUpsertedTs = Some 1700\<rparr>,
         \<lparr>fileConnectorId = 1, driveFileId = ''x2'', name = ''a'', parentId = Some ''F1'',
          lastUpsertedTs = None\<rparr>,
         \<lparr>fileConnectorId = 1, driveFileId = ''x3'', name = ''zz'', parentId = Some ''F1'',
          lastUpsertedTs = Some 1800\<rparr>],
      googleDriveWebhooks =
        [\<lparr>webhookId = ''ch1'', webhookConnectorId = 1\<rparr>,
         \<lparr>webhookId = ''ch2'', webhookConnectorId = 2\<rparr>],
      workflowCalls = []\<rparr>"

text \<open>The same store with one more mirrored file of connector 1, whose id is \<open>__proto__\<close>.\<close>

definition exampleProtoState :: state where
  "exampleProtoState =
     exampleState\<lparr>googleDriveFiles :=
       \<lparr>fileConnectorId = 1, driveFileId = ''__proto__'', name = ''Prototype'',
        parentId = Some ''F1'', lastUpsertedTs = None\<rparr> # googleDriveFiles exampleState\<rparr>"

definition exampleRuntime :: runtime where
  "exampleRuntime =
     \<lparr>getAuthObject = (\<lambda>c. Inr ''token''),
      getGoogleDriveObject =
        (\<lambda>auth i. if i = ''F1''
                  then Inr (Some \<lparr>objectId = ''F1'', objectName = ''Docs v2'', parent = None,
                                  webViewLink = Some ''https://drive/F1'', updatedAtMs = Some 1900\<rparr>)
                  else Inr None),
      getDrivesIds = (\<lambda>c. Inr [''F1'']),
      folderHasChildren = (\<lambda>c i. Inr True),
      getDriveClient = (\<lambda>auth. Inr auth),
      filesList = (\<lambda>drive p token. Inr \<lparr>status = 200, statusText = ''OK'', files = Some [],
                                         nextPageToken = None\<rparr>),
      driveObjectToDustType = (\<lambda>rf auth. Inl (Thrown ''not used'')),
      getPermissionViewType = (\<lambda>f. if driveFileId f = ''x3'' then Folder else File),
      getGoogleDriveEntityDocumentId = (\<lambda>f. None),
      localeCompare = lettersCompare\<rparr>"

definition exampleChildren :: "ConnectorNode list" where
  "exampleChildren =
     [\<lparr>provider = ''google_drive'', internalId = ''x3'', parentInternalId = None,
       nodeType = Folder, title = ''zz'', sourceUrl = None, dustDocumentId = None,
       lastUpdatedAt = Some 1800, expandable = False, permission = ''read''\<rparr>,
      \<lparr>provider = ''google_drive'', internalId = ''x2'', parentInternalId = None,
       nodeType = File, title = ''a'', sourceUrl = None, dustDocumentId = None,
       lastUpdatedAt = None, expandable = False, permission = ''read''\<rparr>,
      \<lparr>provider = ''google_drive'', internalId = ''x1'', parentInternalId = None,
       nodeType = File, title = ''B'', sourceUrl = None, dustDocumentId = None,
       lastUpdatedAt = Some 1700, expandable = False, permission = ''read''\<rparr>]"

definition exampleSelected :: "ConnectorNode list" where
  "exampleSelected =
     [\<lparr>provider = ''google_drive'', internalId = ''F1'', parentInternalId = None,
       nodeType = Folder, title = ''Docs v2'', sourceUrl = None, dustDocumentId = None,
       lastUpdatedAt = Some 1900, expandable = True, permission = ''read''\<rparr>]"

section \<open>Sorting and the executor\<close>

lemma set_insertSorted: "set (insertSorted cmp x xs) = insert x (set xs)"
  by (induction xs) auto

lemma set_arraySort: "set (arraySort cmp xs) = set xs"
  unfolding arraySort_def by (induction xs) (auto simp: set_insertSorted)

lemma concurrentExecutor_set:
  "concurrentExecutor xs f = Inr ys \<Longrightarrow> y \<in> set ys \<Longrightarrow> \<exists>x \<in> set xs. f x = Inr y"
  by (induction xs arbitrary: ys) (auto split: sum.splits)

lemma concurrentExecutor_total:
  "(\<And>x. x \<in> set xs \<Longrightarrow> \<exists>y. f x = Inr y) \<Longrightarrow> \<exists>ys. concurrentExecutor xs f = Inr ys"
proof (induction xs)
  case Nil
  then show ?case by simp
next
  case (Cons x xs)
  then obtain y where "f x = Inr y" by auto
  moreover from Cons obtain ys where "concurrentExecutor xs f = Inr ys" by auto
  ultimately show ?case by simp
qed

lemma example_read_children:
  "retrieveGoogleDriveConnectorPermissions exampleRuntime 1 (Some ''F1'') (Some ''read'')
     exampleState = Some (Inr exampleChildren)"
  by code_simp

section \<open>The webhook handler: paused connectors\<close>

text \<open>
  Claim C8. A notification that resolves to a paused connector is acknowledged with
  status 200 and no error body, and the state is returned as it was: the handler makes no
  call to the workflow client.
\<close>

theorem paused_connector_acknowledged_without_launch:
  assumes "x_goog_channel_id req = Some channelId" and "channelId \<noteq> []"
    and "resolveConnectorId parseInt req channelId s = Some cid" and "cid \<noteq> 0"
    and "fetchById cid s = Some connector" and "isPaused connector"
  shows "webhookGoogleDriveAPIHandler parseInt launch req s = (status200, s)"
  using assms by (simp add: webhookGoogleDriveAPIHandler_def notifyConnector_def)

theorem paused_connector_acknowledged_without_launch_witness:
  "resolveConnectorId (\<lambda>p. None) \<lparr>x_goog_channel_id = Some ''ch2'', connector_id = None\<rparr>
     ''ch2'' exampleState = Some 2 \<and>
   map_option isPaused (fetchById 2 exampleState) = Some True \<and>
   webhookGoogleDriveAPIHandler (\<lambda>p. None) (\<lambda>c. Inr ''workflow'')
     \<lparr>x_goog_channel_id = Some ''ch2'', connector_id = None\<rparr> exampleState
     = (status200, exampleState) \<and>
   workflowCalls exampleState = []"
proof -
  let ?req = "\<lparr>x_goog_channel_id = Some ''ch2'', connector_id = None\<rparr>"
  have r: "resolveConnectorId (\<lambda>p. None) ?req ''ch2'' exampleState = Some 2"
    by (simp add: resolveConnectorId_def exampleState_def)
  have f: "fetchById 2 exampleState =
             Some \<lparr>id' = 2, type' = ''google_drive'', connectionId = ''conn-2'', isPaused = True\<rparr>"
    by (simp add: fetchById_def exampleState_def)
  have "webhookGoogleDriveAPIHandler (\<lambda>p. None) (\<lambda>c. Inr ''workflow'') ?req exampleState
          = (status200, exampleState)"
    by (rule paused_connector_acknowledged_without_launch [OF _ _ r _ f]) simp_all
  with r f show ?thesis by (simp add: exampleState_def)
qed

section \<open>Read-only children listing\<close>

text \<open>
  Claim C10. In a listing with filter \<^verbatim>\<open>"read"\<close> and a parent id, every returned node has
  \<^verbatim>\<open>parentInternalId = null\<close> and \<^verbatim>\<open>permission = "read"\<close>, although it was built from a
  mirrored row of this connector whose parent is the given id.
\<close>

theorem read_children_have_no_parent_link:
  assumes "retrieveGoogleDriveConnectorPermissions rt cid (Some pid) (Some ''read'') s
             = Some (Inr nodes)"
  shows "\<forall>n \<in> set nodes. parentInternalId n = None \<and> permission n = ''read'' \<and>
           (\<exists>f \<in> set (googleDriveFiles s). fileConnectorId f = cid \<and> parentId f = Some pid \<and>
               internalId n = driveFileId f)"
proof -
  from assms obtain c where c: "fetchById cid s = Some c"
    and r: "readChildren rt c cid pid s = Some (Inr nodes)"
    by (auto simp: retrieveGoogleDriveConnectorPermissions_def split: option.splits sum.splits)
  define rows where
    "rows = filter (\<lambda>f. fileConnectorId f = cid \<and> parentId f = Some pid) (googleDriveFiles s)"
  from r obtain ns where ns: "concurrentExecutor rows (syncedChildNode rt c cid s) = Inr ns"
    and nodes: "nodes = arraySort (compareTypeTitle (localeCompare rt)) ns"
    by (auto simp: readChildren_def sortedOk_def rows_def split: sum.splits)
  show ?thesis
  proof
    fix n assume "n \<in> set nodes"
    then have "n \<in> set ns" by (simp add: nodes set_arraySort)
    with ns obtain f where f: "f \<in> set rows" and n: "syncedChildNode rt c cid s f = Inr n"
      using concurrentExecutor_set by meson
    from n have "n = \<lparr>provider = type' c, internalId = driveFileId f, parentInternalId = None,
          nodeType = getPermissionViewType rt f, title = name f, sourceUrl = None,
          dustDocumentId = getGoogleDriveEntityDocumentId rt f,
          lastUpdatedAt = numberOrNull (lastUpsertedTs f),
          expandable = hasLocalChild cid (driveFileId f) s,
          permission = ''read''\<rparr>" by (simp add: syncedChildNode_def)
    then have "parentInternalId n = None" "permission n = ''read''" "internalId n = driveFileId f"
      by simp_all
    with f show "parentInternalId n = None \<and> permission n = ''read'' \<and>
           (\<exists>f \<in> set (googleDriveFiles s). fileConnectorId f = cid \<and> parentId f = Some pid \<and>
               internalId n = driveFileId f)"
      unfolding rows_def by auto
  qed
qed

theorem read_children_have_no_parent_link_witness:
  "retrieveGoogleDriveConnectorPermissions exampleRuntime 1 (Some ''F1'') (Some ''read'')
     exampleState = Some (Inr exampleChildren) \<and>
   exampleChildren \<noteq> [] \<and>
   parentInternalId (hd exampleChildren) = None \<and> permission (hd exampleChildren) = ''read''"
proof -
  have "hd exampleChildren \<in> set exampleChildren" and ne: "exampleChildren \<noteq> []"
    by (simp_all add: exampleChildren_def)
  with read_children_have_no_parent_link [OF example_read_children]
  have "parentInternalId (hd exampleChildren) = None \<and> permission (hd exampleChildren) = ''read''"
    by blast
  with example_read_children ne show ?thesis by simp
qed

section \<open>Title lookup\<close>

lemma titles_fold_dom:
  "dom (foldl (\<lambda>acc curr. setProperty acc (driveFileId curr) (name curr)) m rows)
     = dom m \<union> (driveFileId ` set rows - {''__proto__''})"
  by (induction rows arbitrary: m) (auto simp: setProperty_def split: if_splits)

lemma setProperty_apply:
  "setProperty acc k v i = (if k = i \<and> i \<noteq> ''__proto__'' then Some v else acc i)"
  by (auto simp: setProperty_def)

lemma titles_fold_lookup:
  "foldl (\<lambda>acc curr. setProperty acc (driveFileId curr) (name curr)) m rows i =
     (if i = ''__proto__'' \<or> filter (\<lambda>f. driveFileId f = i) rows = [] then m i
      else Some (name (last (filter (\<lambda>f. driveFileId f = i) rows))))"
proof (induction rows rule: rev_induct)
  case Nil
  then show ?case by simp
next
  case (snoc a rows)
  define acc where
    "acc = foldl (\<lambda>acc curr. setProperty acc (driveFileId curr) (name curr)) m rows"
  have step: "foldl (\<lambda>acc curr. setProperty acc (driveFileId curr) (name curr)) m (rows @ [a]) i
                = (if driveFileId a = i \<and> i \<noteq> ''__proto__'' then Some (name a) else acc i)"
    by (simp only: foldl_append foldl.simps setProperty_apply acc_def)
  have ih: "acc i = (if i = ''__proto__'' \<or> filter (\<lambda>f. driveFileId f = i) rows = [] then m i
      else Some (name (last (filter (\<lambda>f. driveFileId f = i) rows))))"
    unfolding acc_def by (rule snoc.IH)
  show ?case
  proof (cases "driveFileId a = i")
    case True
    then show ?thesis unfolding step ih by simp
  next
    case False
    then show ?thesis unfolding step ih by simp
  qed
qed

text \<open>
  Claim C9. For every connector id and every list of ids, \<open>retrieveGoogleDriveObjectsTitles\<close>
  (a function of the local store alone) returns \<^verbatim>\<open>Ok\<close>. The keys of the returned record
  are the requested ids that have a mirrored row of that connector (the id \<^verbatim>\<open>__proto__\<close>
  apart, which never becomes a key), so an id without such a row is not a key; each value
  is the name of the last such row; and the record is empty for an empty list and for a
  list of unknown ids.
\<close>

theorem resolve_titles_always_ok:
  "\<exists>titles. retrieveGoogleDriveObjectsTitles cid internalIds s = Inr titles \<and>
     dom titles = {i \<in> set internalIds. i \<noteq> ''__proto__'' \<and>
                    (\<exists>f \<in> set (googleDriveFiles s). fileConnectorId f = cid \<and> driveFileId f = i)} \<and>
     (\<forall>i. \<not> (\<exists>f \<in> set (googleDriveFiles s). fileConnectorId f = cid \<and> driveFileId f = i)
          \<longrightarrow> titles i = None) \<and>
     (\<forall>i \<in> dom titles.
        titles i = Some (name (last (filter (\<lambda>f. fileConnectorId f = cid \<and> driveFileId f = i)
                                       (googleDriveFiles s))))) \<and>
     (internalIds = [] \<longrightarrow> titles = Map.empty) \<and>
     ((\<forall>i \<in> set internalIds.
          \<not> (\<exists>f \<in> set (googleDriveFiles s). fileConnectorId f = cid \<and> driveFileId f = i))
        \<longrightarrow> titles = Map.empty)"
proof -
  define rows where
    "rows = filter (\<lambda>f. fileConnectorId f = cid \<and> driveFileId f \<in> set internalIds) (googleDriveFiles s)"
  define titles where
    "titles = foldl (\<lambda>acc curr. setProperty acc (driveFileId curr) (name curr)) Map.empty rows"
  have r: "retrieveGoogleDriveObjectsTitles cid internalIds s = Inr titles"
    by (simp add: retrieveGoogleDriveObjectsTitles_def titles_def rows_def)
  have d: "dom titles = {i \<in> set internalIds. i \<noteq> ''__proto__'' \<and>
                    (\<exists>f \<in> set (googleDriveFiles s). fileConnectorId f = cid \<and> driveFileId f = i)}"
    unfolding titles_def titles_fold_dom rows_def by auto
  have n: "\<forall>i. \<not> (\<exists>f \<in> set (googleDriveFiles s). fileConnectorId f = cid \<and> driveFileId f = i)
          \<longrightarrow> titles i = None"
    using d by (auto simp: dom_def)
  have v: "\<forall>i \<in> dom titles.
        titles i = Some (name (last (filter (\<lambda>f. fileConnectorId f = cid \<and> driveFileId f = i)
                                       (googleDriveFiles s))))"
  proof
    fix i assume i: "i \<in> dom titles"
    with d have m: "i \<in> set internalIds" by simp
    have f: "filter (\<lambda>f. driveFileId f = i) rows
               = filter (\<lambda>f. fileConnectorId f = cid \<and> driveFileId f = i) (googleDriveFiles s)"
      unfolding rows_def using m by (auto intro: filter_cong)
    from i obtain v where "titles i = Some v" by auto
    then show "titles i = Some (name (last (filter (\<lambda>f. fileConnectorId f = cid \<and> driveFileId f = i)
                                       (googleDriveFiles s))))"
      unfolding titles_def titles_fold_lookup f by (simp split: if_splits)
  qed
  have e: "internalIds = [] \<longrightarrow> titles = Map.empty"
    using d by auto
  have u: "(\<forall>i \<in> set internalIds.
          \<not> (\<exists>f \<in> set (googleDriveFiles s). fileConnectorId f = cid \<and> driveFileId f = i))
        \<longrightarrow> titles = Map.empty"
    using d by auto
  show ?thesis
    by (intro exI [of _ titles] conjI) (fact r, fact d, fact n, fact v, fact e, fact u)
qed

theorem resolve_titles_always_ok_witness:
  "retrieveGoogleDriveObjectsTitles 1 [] exampleState = Inr Map.empty \<and>
   retrieveGoogleDriveObjectsTitles 1 [''unknown-1'', ''unknown-2''] exampleState = Inr Map.empty \<and>
   map_sum (\<lambda>e. e) dom (retrieveGoogleDriveObjectsTitles 1 [''x1'', ''unknown-1''] exampleState)
     = Inr {''x1''} \<and>
   map_sum (\<lambda>e. e) (\<lambda>titles. titles ''x1'')
       (retrieveGoogleDriveObjectsTitles 1 [''x1'', ''unknown-1''] exampleState)
     = Inr (Some ''B'') \<and>
   map_sum (\<lambda>e. e) dom (retrieveGoogleDriveObjectsTitles 1 [''__proto__'', ''x1''] exampleProtoState)
     = Inr {''x1''}"
proof -
  have a: "retrieveGoogleDriveObjectsTitles 1 [] exampleState = Inr Map.empty"
    using resolve_titles_always_ok [of 1 "[]" exampleState] by auto
  have "\<forall>i \<in> set [''unknown-1'', ''unknown-2''].
          \<not> (\<exists>f \<in> set (googleDriveFiles exampleState). fileConnectorId f = 1 \<and> driveFileId f = i)"
    by code_simp
  then have b: "retrieveGoogleDriveObjectsTitles 1 [''unknown-1'', ''unknown-2''] exampleState
                  = Inr Map.empty"
    using resolve_titles_always_ok [of 1 "[''unknown-1'', ''unknown-2'']" exampleState] by blast
  have s1: "{i \<in> set [''x1'', ''unknown-1'']. i \<noteq> ''__proto__'' \<and>
          (\<exists>f \<in> set (googleDriveFiles exampleState). fileConnectorId f = 1 \<and> driveFileId f = i)}
        = {''x1''}"
    by code_simp
  have l1: "name (last (filter (\<lambda>f. fileConnectorId f = 1 \<and> driveFileId f = ''x1'')
                          (googleDriveFiles exampleState))) = ''B''"
    by code_simp
  from resolve_titles_always_ok [of 1 "[''x1'', ''unknown-1'']" exampleState]
  obtain t1 where t1: "retrieveGoogleDriveObjectsTitles 1 [''x1'', ''unknown-1''] exampleState = Inr t1"
    and d1: "dom t1 = {i \<in> set [''x1'', ''unknown-1'']. i \<noteq> ''__proto__'' \<and>
          (\<exists>f \<in> set (googleDriveFiles exampleState). fileConnectorId f = 1 \<and> driveFileId f = i)}"
    and v1: "\<forall>i \<in> dom t1.
        t1 i = Some (name (last (filter (\<lambda>f. fileConnectorId f = 1 \<and> driveFileId f = i)
                                       (googleDriveFiles exampleState))))"
    by blast
  from d1 have d1': "dom t1 = {''x1''}" unfolding s1 .
  then have "''x1'' \<in> dom t1" by simp
  with v1 have "t1 ''x1'' = Some (name (last (filter (\<lambda>f. fileConnectorId f = 1 \<and> driveFileId f = ''x1'')
                                       (googleDriveFiles exampleState))))"
    by (rule bspec)
  then have "t1 ''x1'' = Some ''B''" unfolding l1 .
  with t1 d1' have c: "map_sum (\<lambda>e. e) dom
                  (retrieveGoogleDriveObjectsTitles 1 [''x1'', ''unknown-1''] exampleState) = Inr {''x1''}"
    and c': "map_sum (\<lambda>e. e) (\<lambda>titles. titles ''x1'')
       (retrieveGoogleDriveObjectsTitles 1 [''x1'', ''unknown-1''] exampleState) = Inr (Some ''B'')"
    by simp_all
  have "{i \<in> set [''__proto__'', ''x1'']. i \<noteq> ''__proto__'' \<and>
          (\<exists>f \<in> set (googleDriveFiles exampleProtoState). fileConnectorId f = 1 \<and> driveFileId f = i)}
        = {''x1''}"
    by code_simp
  moreover from resolve_titles_always_ok [of 1 "[''__proto__'', ''x1'']" exampleProtoState]
  obtain t2 where "retrieveGoogleDriveObjectsTitles 1 [''__proto__'', ''x1''] exampleProtoState = Inr t2"
    and "dom t2 = {i \<in> set [''__proto__'', ''x1'']. i \<noteq> ''__proto__'' \<and>
          (\<exists>f \<in> set (googleDriveFiles exampleProtoState). fileConnectorId f = 1 \<and> driveFileId f = i)}"
    by blast
  ultimately have p: "map_sum (\<lambda>e. e) dom
                  (retrieveGoogleDriveObjectsTitles 1 [''__proto__'', ''x1''] exampleProtoState)
                = Inr {''x1''}"
    by simp
  from a b c c' p show ?thesis by simp
qed

section \<open>The webhook handler: resolving the connector\<close>

lemma notifyConnector_webhooks:
  "notifyConnector launch cid (s\<lparr>googleDriveWebhooks := ws\<rparr>) =
     (fst (notifyConnector launch cid s), (snd (notifyConnector launch cid s))\<lparr>googleDriveWebhooks := ws\<rparr>)"
  by (simp add: notifyConnector_def fetchById_def Let_def
        split: option.splits sum.splits WorkflowError.splits)

lemma notifyConnector_active:
  "fetchById cid s = Some connector \<Longrightarrow> \<not> isPaused connector \<Longrightarrow>
     workflowCalls (snd (notifyConnector launch cid s)) = workflowCalls s @ [IncrementalSyncWorkflow cid]"
  by (simp add: notifyConnector_def Let_def split: sum.splits WorkflowError.splits)

lemma notifyConnector_not_unresolved:
  "fst (notifyConnector launch cid s) \<noteq> unresolvedConnectorError"
  by (simp add: notifyConnector_def Let_def unresolvedConnectorError_def apiError_def status200_def
        split: option.splits sum.splits WorkflowError.splits)

lemma handler_resolved:
  "x_goog_channel_id req = Some channelId \<Longrightarrow> channelId \<noteq> [] \<Longrightarrow>
   resolveConnectorId parseInt req channelId s = Some cid \<Longrightarrow> cid \<noteq> 0 \<Longrightarrow>
     webhookGoogleDriveAPIHandler parseInt launch req s = notifyConnector launch cid s"
  by (simp add: webhookGoogleDriveAPIHandler_def)

lemma notifyConnector_reads:
  "connectors s2 = connectors s \<Longrightarrow> workflowCalls s2 = workflowCalls s \<Longrightarrow>
     fst (notifyConnector launch cid s2) = fst (notifyConnector launch cid s) \<and>
     workflowCalls (snd (notifyConnector launch cid s2))
       = workflowCalls (snd (notifyConnector launch cid s))"
  by (simp add: notifyConnector_def fetchById_def Let_def
        split: option.splits sum.splits WorkflowError.splits)

lemma notifyConnector_launched:
  "fetchById cid s = Some connector \<Longrightarrow> \<not> isPaused connector \<Longrightarrow> launch cid = Inr workflowId \<Longrightarrow>
     fst (notifyConnector launch cid s) = status200"
  by (simp add: notifyConnector_def Let_def)

lemma resolve_stored:
  "find (\<lambda>w. webhookId w = channelId) (googleDriveWebhooks s) = Some w \<Longrightarrow>
     resolveConnectorId parseInt req channelId s = Some (webhookConnectorId w)"
  by (simp add: resolveConnectorId_def)

lemma resolve_route:
  "find (\<lambda>w. webhookId w = channelId) (googleDriveWebhooks s) = None \<Longrightarrow>
     resolveConnectorId parseInt req channelId s =
       (case connector_id req of None \<Rightarrow> None | Some p \<Rightarrow> if p = [] then None else parseInt p)"
  by (simp add: resolveConnectorId_def)

lemma handler_unresolved:
  assumes "x_goog_channel_id req = Some channelId" and "channelId \<noteq> []"
  shows "(fst (webhookGoogleDriveAPIHandler parseInt launch req s) = unresolvedConnectorError) =
           (resolveConnectorId parseInt req channelId s = None \<or>
            resolveConnectorId parseInt req channelId s = Some 0)"
proof (cases "resolveConnectorId parseInt req channelId s")
  case None
  with assms show ?thesis by (simp add: webhookGoogleDriveAPIHandler_def)
next
  case (Some k)
  show ?thesis
  proof (cases "k = 0")
    case True
    with Some assms show ?thesis by (simp add: webhookGoogleDriveAPIHandler_def)
  next
    case False
    have "webhookGoogleDriveAPIHandler parseInt launch req s = notifyConnector launch k s"
      by (rule handler_resolved [OF assms Some False])
    with Some False show ?thesis
      by (simp add: notifyConnector_not_unresolved)
  qed
qed

text \<open>
  Claim C7. Take a notification with a channel id that no stored webhook has, and a route
  parameter that parses to a non-zero connector id. The handler answers, and calls the
  workflow client, exactly as it does for any notification (with or without a route
  parameter) whose channel id a stored webhook has for that connector, on a store with the
  same connectors: for an existing connector that is not paused this is one
  incremental-sync launch, acknowledged with 200 when the launch succeeds. For any
  notification with a channel id, the handler answers "could not determine connectorId"
  exactly when the stored webhook of that channel id, if there is one, has connector id
  0, and otherwise when the route parameter is missing, empty, or parses to \<^verbatim>\<open>NaN\<close> or 0.
\<close>

theorem route_parameter_fallback:
  assumes ch: "x_goog_channel_id req = Some channelId" "channelId \<noteq> []"
  shows "(find (\<lambda>w. webhookId w = channelId) (googleDriveWebhooks s) = None \<and>
          connector_id req = Some p \<and> p \<noteq> [] \<and> parseInt p = Some cid \<and> cid \<noteq> 0 \<longrightarrow>
            (\<forall>req2 channelId2 s2 w.
               x_goog_channel_id req2 = Some channelId2 \<and> channelId2 \<noteq> [] \<and>
               find (\<lambda>w. webhookId w = channelId2) (googleDriveWebhooks s2) = Some w \<and>
               webhookConnectorId w = cid \<and>
               connectors s2 = connectors s \<and> workflowCalls s2 = workflowCalls s \<longrightarrow>
                 fst (webhookGoogleDriveAPIHandler parseInt launch req s)
                   = fst (webhookGoogleDriveAPIHandler parseInt launch req2 s2) \<and>
                 workflowCalls (snd (webhookGoogleDriveAPIHandler parseInt launch req s))
                   = workflowCalls (snd (webhookGoogleDriveAPIHandler parseInt launch req2 s2))) \<and>
            fst (webhookGoogleDriveAPIHandler parseInt launch req
                   (s\<lparr>googleDriveWebhooks :=
                        \<lparr>webhookId = channelId, webhookConnectorId = cid\<rparr> # googleDriveWebhooks s\<rparr>))
              = fst (webhookGoogleDriveAPIHandler parseInt launch req s) \<and>
            workflowCalls (snd (webhookGoogleDriveAPIHandler parseInt launch req
                   (s\<lparr>googleDriveWebhooks :=
                        \<lparr>webhookId = channelId, webhookConnectorId = cid\<rparr> # googleDriveWebhooks s\<rparr>)))
              = workflowCalls (snd (webhookGoogleDriveAPIHandler parseInt launch req s)) \<and>
            (\<forall>connector. fetchById cid s = Some connector \<and> \<not> isPaused connector \<longrightarrow>
               workflowCalls (snd (webhookGoogleDriveAPIHandler parseInt launch req s))
                 = workflowCalls s @ [IncrementalSyncWorkflow cid] \<and>
               (\<forall>workflowId. launch cid = Inr workflowId \<longrightarrow>
                  fst (webhookGoogleDriveAPIHandler parseInt launch req s) = status200))) \<and>
         ((fst (webhookGoogleDriveAPIHandler parseInt launch req s) = unresolvedConnectorError) =
            (case find (\<lambda>w. webhookId w = channelId) (googleDriveWebhooks s) of
               Some w \<Rightarrow> webhookConnectorId w = 0
             | None \<Rightarrow>
                 (case connector_id req of
                    None \<Rightarrow> True
                  | Some p \<Rightarrow> p = [] \<or> parseInt p = None \<or> parseInt p = Some 0)))"
proof -
  have second:
    "(fst (webhookGoogleDriveAPIHandler parseInt launch req s) = unresolvedConnectorError) =
            (case find (\<lambda>w. webhookId w = channelId) (googleDriveWebhooks s) of
               Some w \<Rightarrow> webhookConnectorId w = 0
             | None \<Rightarrow>
                 (case connector_id req of
                    None \<Rightarrow> True
                  | Some p \<Rightarrow> p = [] \<or> parseInt p = None \<or> parseInt p = Some 0))"
  proof (cases "find (\<lambda>w. webhookId w = channelId) (googleDriveWebhooks s)")
    case None
    show ?thesis
      unfolding handler_unresolved [OF ch] resolve_route [OF None] None
      by (cases "connector_id req") auto
  next
    case (Some w)
    show ?thesis
      unfolding handler_unresolved [OF ch] resolve_stored [OF Some] Some
      by simp
  qed
  have first:
    "find (\<lambda>w. webhookId w = channelId) (googleDriveWebhooks s) = None \<and>
          connector_id req = Some p \<and> p \<noteq> [] \<and> parseInt p = Some cid \<and> cid \<noteq> 0 \<longrightarrow>
            (\<forall>req2 channelId2 s2 w.
               x_goog_channel_id req2 = Some channelId2 \<and> channelId2 \<noteq> [] \<and>
               find (\<lambda>w. webhookId w = channelId2) (googleDriveWebhooks s2) = Some w \<and>
               webhookConnectorId w = cid \<and>
               connectors s2 = connectors s \<and> workflowCalls s2 = workflowCalls s \<longrightarrow>
                 fst (webhookGoogleDriveAPIHandler parseInt launch req s)
                   = fst (webhookGoogleDriveAPIHandler parseInt launch req2 s2) \<and>
                 workflowCalls (snd (webhookGoogleDriveAPIHandler parseInt launch req s))
                   = workflowCalls (snd (webhookGoogleDriveAPIHandler parseInt launch req2 s2))) \<and>
            fst (webhookGoogleDriveAPIHandler parseInt launch req
                   (s\<lparr>googleDriveWebhooks :=
                        \<lparr>webhookId = channelId, webhookConnectorId = cid\<rparr> # googleDriveWebhooks s\<rparr>))
              = fst (webhookGoogleDriveAPIHandler parseInt launch req s) \<and>
            workflowCalls (snd (webhookGoogleDriveAPIHandler parseInt launch req
                   (s\<lparr>googleDriveWebhooks :=
                        \<lparr>webhookId = channelId, webhookConnectorId = cid\<rparr> # googleDriveWebhooks s\<rparr>)))
              = workflowCalls (snd (webhookGoogleDriveAPIHandler parseInt launch req s)) \<and>
            (\<forall>connector. fetchById cid s = Some connector \<and> \<not> isPaused connector \<longrightarrow>
               workflowCalls (snd (webhookGoogleDriveAPIHandler parseInt launch req s))
                 = workflowCalls s @ [IncrementalSyncWorkflow cid] \<and>
               (\<forall>workflowId. launch cid = Inr workflowId \<longrightarrow>
                  fst (webhookGoogleDriveAPIHandler parseInt launch req s) = status200))"
  proof
    assume a: "find (\<lambda>w. webhookId w = channelId) (googleDriveWebhooks s) = None \<and>
          connector_id req = Some p \<and> p \<noteq> [] \<and> parseInt p = Some cid \<and> cid \<noteq> 0"
    let ?found = "s\<lparr>googleDriveWebhooks :=
                        \<lparr>webhookId = channelId, webhookConnectorId = cid\<rparr> # googleDriveWebhooks s\<rparr>"
    from a have r: "resolveConnectorId parseInt req channelId s = Some cid"
      by (simp add: resolveConnectorId_def)
    have rf: "resolveConnectorId parseInt req channelId ?found = Some cid"
      by (simp add: resolveConnectorId_def)
    from a have nz: "cid \<noteq> 0" by simp
    have h: "webhookGoogleDriveAPIHandler parseInt launch req s = notifyConnector launch cid s"
      by (rule handler_resolved [OF ch r nz])
    have hf: "webhookGoogleDriveAPIHandler parseInt launch req ?found = notifyConnector launch cid ?found"
      by (rule handler_resolved [OF ch rf nz])
    have g1: "\<forall>req2 channelId2 s2 w.
               x_goog_channel_id req2 = Some channelId2 \<and> channelId2 \<noteq> [] \<and>
               find (\<lambda>w. webhookId w = channelId2) (googleDriveWebhooks s2) = Some w \<and>
               webhookConnectorId w = cid \<and>
               connectors s2 = connectors s \<and> workflowCalls s2 = workflowCalls s \<longrightarrow>
                 fst (webhookGoogleDriveAPIHandler parseInt launch req s)
                   = fst (webhookGoogleDriveAPIHandler parseInt launch req2 s2) \<and>
                 workflowCalls (snd (webhookGoogleDriveAPIHandler parseInt launch req s))
                   = workflowCalls (snd (webhookGoogleDriveAPIHandler parseInt launch req2 s2))"
    proof (intro allI impI)
      fix req2 :: Request and channelId2 :: string and s2 :: state and w :: GoogleDriveWebhook
      assume b: "x_goog_channel_id req2 = Some channelId2 \<and> channelId2 \<noteq> [] \<and>
               find (\<lambda>w. webhookId w = channelId2) (googleDriveWebhooks s2) = Some w \<and>
               webhookConnectorId w = cid \<and>
               connectors s2 = connectors s \<and> workflowCalls s2 = workflowCalls s"
      then have h1: "x_goog_channel_id req2 = Some channelId2" and h2: "channelId2 \<noteq> []"
        and h3: "find (\<lambda>w. webhookId w = channelId2) (googleDriveWebhooks s2) = Some w"
        and h4: "webhookConnectorId w = cid"
        and h5: "connectors s2 = connectors s" and h6: "workflowCalls s2 = workflowCalls s"
        by simp_all
      have "resolveConnectorId parseInt req2 channelId2 s2 = Some cid"
        using resolve_stored [OF h3] h4 by simp
      then have e2: "webhookGoogleDriveAPIHandler parseInt launch req2 s2 = notifyConnector launch cid s2"
        by (rule handler_resolved [OF h1 h2 _ nz])
      show "fst (webhookGoogleDriveAPIHandler parseInt launch req s)
                   = fst (webhookGoogleDriveAPIHandler parseInt launch req2 s2) \<and>
            workflowCalls (snd (webhookGoogleDriveAPIHandler parseInt launch req s))
                   = workflowCalls (snd (webhookGoogleDriveAPIHandler parseInt launch req2 s2))"
        unfolding h e2 using notifyConnector_reads [OF h5 h6, of launch cid] by simp
    qed
    have g2: "fst (webhookGoogleDriveAPIHandler parseInt launch req ?found)
          = fst (webhookGoogleDriveAPIHandler parseInt launch req s)"
      by (simp only: h hf notifyConnector_webhooks fst_conv)
    have g3: "workflowCalls (snd (webhookGoogleDriveAPIHandler parseInt launch req ?found))
          = workflowCalls (snd (webhookGoogleDriveAPIHandler parseInt launch req s))"
      by (simp add: h hf notifyConnector_webhooks [where s = s])
    have g4: "\<forall>connector. fetchById cid s = Some connector \<and> \<not> isPaused connector \<longrightarrow>
               workflowCalls (snd (webhookGoogleDriveAPIHandler parseInt launch req s))
                 = workflowCalls s @ [IncrementalSyncWorkflow cid] \<and>
               (\<forall>workflowId. launch cid = Inr workflowId \<longrightarrow>
                  fst (webhookGoogleDriveAPIHandler parseInt launch req s) = status200)"
      unfolding h by (simp add: notifyConnector_active notifyConnector_launched)
    from g1 g2 g3 g4
    show "(\<forall>req2 channelId2 s2 w.
               x_goog_channel_id req2 = Some channelId2 \<and> channelId2 \<noteq> [] \<and>
               find (\<lambda>w. webhookId w = channelId2) (googleDriveWebhooks s2) = Some w \<and>
               webhookConnectorId w = cid \<and>
               connectors s2 = connectors s \<and> workflowCalls s2 = workflowCalls s \<longrightarrow>
                 fst (webhookGoogleDriveAPIHandler parseInt launch req s)
                   = fst (webhookGoogleDriveAPIHandler parseInt launch req2 s2) \<and>
                 workflowCalls (snd (webhookGoogleDriveAPIHandler parseInt launch req s))
                   = workflowCalls (snd (webhookGoogleDriveAPIHandler parseInt launch req2 s2))) \<and>
            fst (webhookGoogleDriveAPIHandler parseInt launch req ?found)
              = fst (webhookGoogleDriveAPIHandler parseInt launch req s) \<and>
            workflowCalls (snd (webhookGoogleDriveAPIHandler parseInt launch req ?found))
              = workflowCalls (snd (webhookGoogleDriveAPIHandler parseInt launch req s)) \<and>
            (\<forall>connector. fetchById cid s = Some connector \<and> \<not> isPaused connector \<longrightarrow>
               workflowCalls (snd (webhookGoogleDriveAPIHandler parseInt launch req s))
                 = workflowCalls s @ [IncrementalSyncWorkflow cid] \<and>
               (\<forall>workflowId. launch cid = Inr workflowId \<longrightarrow>
                  fst (webhookGoogleDriveAPIHandler parseInt launch req s) = status200))"
      by (intro conjI)
  qed
  from first second show ?thesis by (rule conjI)
qed

theorem route_parameter_fallback_witness:
  "find (\<lambda>w. webhookId w = ''stale-channel'') (googleDriveWebhooks exampleState) = None \<and>
   map_option webhookConnectorId
     (find (\<lambda>w. webhookId w = ''ch1'') (googleDriveWebhooks exampleState)) = Some 1 \<and>
   webhookGoogleDriveAPIHandler (\<lambda>p. if p = ''1'' then Some 1 else None) (\<lambda>c. Inr ''workflow'')
     \<lparr>x_goog_channel_id = Some ''stale-channel'', connector_id = Some ''1''\<rparr> exampleState
     = (status200, exampleState\<lparr>workflowCalls := [IncrementalSyncWorkflow 1]\<rparr>) \<and>
   fst (webhookGoogleDriveAPIHandler (\<lambda>p. if p = ''1'' then Some 1 else None) (\<lambda>c. Inr ''workflow'')
     \<lparr>x_goog_channel_id = Some ''ch1'', connector_id = None\<rparr> exampleState) = status200 \<and>
   workflowCalls (snd (webhookGoogleDriveAPIHandler (\<lambda>p. if p = ''1'' then Some 1 else None)
     (\<lambda>c. Inr ''workflow'')
     \<lparr>x_goog_channel_id = Some ''ch1'', connector_id = None\<rparr> exampleState))
     = [IncrementalSyncWorkflow 1] \<and>
   fst (webhookGoogleDriveAPIHandler (\<lambda>p. if p = ''1'' then Some 1 else None) (\<lambda>c. Inr ''workflow'')
     \<lparr>x_goog_channel_id = Some ''stale-channel'', connector_id = Some ''abc''\<rparr> exampleState)
     = unresolvedConnectorError"
proof -
  let ?req = "\<lparr>x_goog_channel_id = Some ''stale-channel'', connector_id = Some ''1''\<rparr>"
  let ?req2 = "\<lparr>x_goog_channel_id = Some ''ch1'', connector_id = None\<rparr>"
  let ?req3 = "\<lparr>x_goog_channel_id = Some ''stale-channel'', connector_id = Some ''abc''\<rparr>"
  let ?parse = "\<lambda>p. if p = ''1'' then Some (1::int) else None"
  let ?launch = "\<lambda>c::int. Inr ''workflow'' :: WorkflowError + string"
  have nf: "find (\<lambda>w. webhookId w = ''stale-channel'') (googleDriveWebhooks exampleState) = None"
    by (simp add: exampleState_def)
  have st: "find (\<lambda>w. webhookId w = ''ch1'') (googleDriveWebhooks exampleState)
              = Some \<lparr>webhookId = ''ch1'', webhookConnectorId = 1\<rparr>"
    by (simp add: exampleState_def)
  have f: "fetchById 1 exampleState =
             Some \<lparr>id' = 1, type' = ''google_drive'', connectionId = ''conn-1'', isPaused = False\<rparr>"
    by (simp add: fetchById_def exampleState_def)
  have wc: "workflowCalls exampleState = []"
    by (simp add: exampleState_def)
  note t = route_parameter_fallback [where req = ?req and channelId = "''stale-channel''"
         and s = exampleState and p = "''1''" and parseInt = ?parse and cid = 1 and launch = ?launch]
  from t nf f
  have calls: "workflowCalls (snd (webhookGoogleDriveAPIHandler ?parse ?launch ?req exampleState))
           = workflowCalls exampleState @ [IncrementalSyncWorkflow 1]"
    and ok: "fst (webhookGoogleDriveAPIHandler ?parse ?launch ?req exampleState) = status200"
    by simp_all
  from t nf
  have every: "\<forall>req2 channelId2 s2 w.
               x_goog_channel_id req2 = Some channelId2 \<and> channelId2 \<noteq> [] \<and>
               find (\<lambda>w. webhookId w = channelId2) (googleDriveWebhooks s2) = Some w \<and>
               webhookConnectorId w = 1 \<and>
               connectors s2 = connectors exampleState \<and>
               workflowCalls s2 = workflowCalls exampleState \<longrightarrow>
                 fst (webhookGoogleDriveAPIHandler ?parse ?launch ?req exampleState)
                   = fst (webhookGoogleDriveAPIHandler ?parse ?launch req2 s2) \<and>
                 workflowCalls (snd (webhookGoogleDriveAPIHandler ?parse ?launch ?req exampleState))
                   = workflowCalls (snd (webhookGoogleDriveAPIHandler ?parse ?launch req2 s2))"
    by simp
  have same: "fst (webhookGoogleDriveAPIHandler ?parse ?launch ?req exampleState)
                = fst (webhookGoogleDriveAPIHandler ?parse ?launch ?req2 exampleState) \<and>
              workflowCalls (snd (webhookGoogleDriveAPIHandler ?parse ?launch ?req exampleState))
                = workflowCalls (snd (webhookGoogleDriveAPIHandler ?parse ?launch ?req2 exampleState))"
    using every [rule_format, of ?req2 "''ch1''" exampleState
                   "\<lparr>webhookId = ''ch1'', webhookConnectorId = 1\<rparr>"] st
    by simp
  have whole: "webhookGoogleDriveAPIHandler ?parse ?launch ?req exampleState
     = (status200, exampleState\<lparr>workflowCalls := [IncrementalSyncWorkflow 1]\<rparr>)"
    by code_simp
  from route_parameter_fallback [where req = ?req3 and channelId = "''stale-channel''"
         and s = exampleState and parseInt = ?parse and launch = ?launch] nf
  have un: "fst (webhookGoogleDriveAPIHandler ?parse ?launch ?req3 exampleState) = unresolvedConnectorError"
    by simp
  from nf st whole same ok calls wc un show ?thesis by simp
qed

section \<open>The webhook handler: status codes\<close>

lemma notifyConnector_status:
  "status_code (fst (notifyConnector launch cid s)) =
     (case fetchById cid s of
        None \<Rightarrow> 404
      | Some connector \<Rightarrow>
          if isPaused connector then 200
          else (case launch cid of Inl (OtherError m) \<Rightarrow> 500 | Inl (RateLimitError m) \<Rightarrow> 200 | Inr w \<Rightarrow> 200))"
  by (simp add: notifyConnector_def Let_def apiError_def status200_def
        split: option.splits sum.splits WorkflowError.splits)

text \<open>
  Claim C6 says that every request with a channel id is answered with status 200, whatever
  the launch of the incremental sync does. A launch that fails with an error other than
  the rate limit is answered with status 500: here the channel \<open>ch1\<close> of the active
  connector 1, with a workflow client that fails.
\<close>

theorem webhook_status_codes_counterexample:
  "x_goog_channel_id \<lparr>x_goog_channel_id = Some ''ch1'', connector_id = None\<rparr> = Some ''ch1'' \<and>
   status_code (fst (webhookGoogleDriveAPIHandler (\<lambda>p. None)
          (\<lambda>c. Inl (OtherError ''workflow service unavailable''))
          \<lparr>x_goog_channel_id = Some ''ch1'', connector_id = None\<rparr> exampleState)) = 500 \<and>
   fst (webhookGoogleDriveAPIHandler (\<lambda>p. None) (\<lambda>c. Inl (OtherError ''workflow service unavailable''))
          \<lparr>x_goog_channel_id = Some ''ch1'', connector_id = None\<rparr> exampleState)
     = apiError 500
         ''Failed starting the incremental sync workflow. Error: workflow service unavailable''
         ''internal_server_error''"
  by code_simp

text \<open>
  Claim C6, amended. The handler answers 200 exactly when the notification resolves to an
  existing connector that is paused or whose launch succeeds or is rejected by the rate
  limit; 500 exactly when the launch for an existing, active connector fails with another
  error; 404 exactly when the resolved connector does not exist; 400 exactly when the
  channel id is missing or empty or no connector id can be determined. There is no other
  status.
\<close>

theorem webhook_status_codes:
  "(status_code (fst (webhookGoogleDriveAPIHandler parseInt launch req s)) = 200) =
     (\<exists>channelId cid connector.
        x_goog_channel_id req = Some channelId \<and> channelId \<noteq> [] \<and>
        resolveConnectorId parseInt req channelId s = Some cid \<and> cid \<noteq> 0 \<and>
        fetchById cid s = Some connector \<and>
        (isPaused connector \<or> (\<exists>w. launch cid = Inr w) \<or> (\<exists>m. launch cid = Inl (RateLimitError m)))) \<and>
   (status_code (fst (webhookGoogleDriveAPIHandler parseInt launch req s)) = 500) =
     (\<exists>channelId cid connector m.
        x_goog_channel_id req = Some channelId \<and> channelId \<noteq> [] \<and>
        resolveConnectorId parseInt req channelId s = Some cid \<and> cid \<noteq> 0 \<and>
        fetchById cid s = Some connector \<and> \<not> isPaused connector \<and>
        launch cid = Inl (OtherError m)) \<and>
   (status_code (fst (webhookGoogleDriveAPIHandler parseInt launch req s)) = 404) =
     (\<exists>channelId cid.
        x_goog_channel_id req = Some channelId \<and> channelId \<noteq> [] \<and>
        resolveConnectorId parseInt req channelId s = Some cid \<and> cid \<noteq> 0 \<and>
        fetchById cid s = None) \<and>
   (status_code (fst (webhookGoogleDriveAPIHandler parseInt launch req s)) = 400) =
     (x_goog_channel_id req = None \<or> x_goog_channel_id req = Some [] \<or>
      (\<exists>channelId. x_goog_channel_id req = Some channelId \<and>
         (resolveConnectorId parseInt req channelId s = None \<or>
          resolveConnectorId parseInt req channelId s = Some 0))) \<and>
   status_code (fst (webhookGoogleDriveAPIHandler parseInt launch req s)) \<in> {200, 400, 404, 500}"
proof (cases "x_goog_channel_id req")
  case None
  then show ?thesis
    by (simp add: webhookGoogleDriveAPIHandler_def apiError_def)
next
  case (Some channelId)
  note ch = this
  show ?thesis
  proof (cases "channelId = []")
    case True
    with ch show ?thesis
      by (simp add: webhookGoogleDriveAPIHandler_def apiError_def)
  next
    case ne: False
    show ?thesis
    proof (cases "resolveConnectorId parseInt req channelId s")
      case None
      with ch ne show ?thesis
        by (simp add: webhookGoogleDriveAPIHandler_def apiError_def unresolvedConnectorError_def)
    next
      case r: (Some cid)
      show ?thesis
      proof (cases "cid = 0")
        case True
        with ch ne r show ?thesis
          by (simp add: webhookGoogleDriveAPIHandler_def apiError_def unresolvedConnectorError_def)
      next
        case nz: False
        have h: "webhookGoogleDriveAPIHandler parseInt launch req s = notifyConnector launch cid s"
          by (rule handler_resolved [OF ch ne r nz])
        show ?thesis
        proof (cases "fetchById cid s")
          case None
          with ch ne r nz show ?thesis
            by (simp add: h notifyConnector_status)
        next
          case c: (Some connector)
          show ?thesis
          proof (cases "isPaused connector")
            case True
            with ch ne r nz c show ?thesis
              by (simp add: h notifyConnector_status)
          next
            case False
            with ch ne r nz c show ?thesis
              by (cases "launch cid")
                 (simp_all add: h notifyConnector_status split: WorkflowError.splits)
          qed
        qed
      qed
    qed
  qed
qed

theorem webhook_status_codes_witness:
  "status_code (fst (webhookGoogleDriveAPIHandler (\<lambda>p. None) (\<lambda>c. Inl (RateLimitError ''too many workflows''))
          \<lparr>x_goog_channel_id = Some ''ch1'', connector_id = None\<rparr> exampleState)) = 200 \<and>
   status_code (fst (webhookGoogleDriveAPIHandler (\<lambda>p. None) (\<lambda>c. Inl (RateLimitError ''too many workflows''))
          \<lparr>x_goog_channel_id = None, connector_id = Some ''1''\<rparr> exampleState)) = 400"
proof -
  let ?launch = "\<lambda>c::int. Inl (RateLimitError ''too many workflows'') :: WorkflowError + string"
  let ?req = "\<lparr>x_goog_channel_id = Some ''ch1'', connector_id = None\<rparr>"
  have r: "resolveConnectorId (\<lambda>p. None) ?req ''ch1'' exampleState = Some 1"
    by (simp add: resolveConnectorId_def exampleState_def)
  have f: "fetchById 1 exampleState =
             Some \<lparr>id' = 1, type' = ''google_drive'', connectionId = ''conn-1'', isPaused = False\<rparr>"
    by (simp add: fetchById_def exampleState_def)
  have "\<exists>channelId cid connector.
        x_goog_channel_id ?req = Some channelId \<and> channelId \<noteq> [] \<and>
        resolveConnectorId (\<lambda>p. None) ?req channelId exampleState = Some cid \<and> cid \<noteq> 0 \<and>
        fetchById cid exampleState = Some connector \<and>
        (isPaused connector \<or> (\<exists>w. ?launch cid = Inr w) \<or> (\<exists>m. ?launch cid = Inl (RateLimitError m)))"
    using r f by auto
  then have a: "status_code (fst (webhookGoogleDriveAPIHandler (\<lambda>p. None) ?launch ?req exampleState)) = 200"
    using webhook_status_codes [of "\<lambda>p. None" ?launch ?req exampleState] by blast
  have b: "status_code (fst (webhookGoogleDriveAPIHandler (\<lambda>p. None) ?launch
          \<lparr>x_goog_channel_id = None, connector_id = Some ''1''\<rparr> exampleState)) = 400"
    using webhook_status_codes [of "\<lambda>p. None" ?launch
          "\<lparr>x_goog_channel_id = None, connector_id = Some ''1''\<rparr>" exampleState]
    by simp
  from a b show ?thesis by simp
qed

section \<open>Permission changes: the loop\<close>

lemma permissionsLoop_valid:
  "list_all validPermission xs \<Longrightarrow>
     \<exists>rows'. permissionsLoop cid xs b rows = (Inr (b \<or> xs \<noteq> []), rows')"
proof (induction xs arbitrary: b rows)
  case Nil
  then show ?case by simp
next
  case (Cons x xs)
  obtain nid p where x: "x = (nid, p)" by (cases x)
  from Cons.prems have vs: "list_all validPermission xs" by simp
  from Cons.prems have "validPermission (nid, p)" by (simp add: x)
  then have v: "p = ''none'' \<or> p = ''read''" by (simp add: validPermission_def)
  from v show ?case
  proof
    assume p: "p = ''none''"
    from Cons.IH [OF vs, of True "destroyFolder cid nid rows"] show ?thesis
      unfolding x by (simp add: p)
  next
    assume p: "p = ''read''"
    from Cons.IH [OF vs, of True "upsertFolder cid nid rows"] show ?thesis
      unfolding x by (simp add: p)
  qed
qed

lemma permissionsLoop_append:
  "permissionsLoop cid xs b rows = (Inr b', rows') \<Longrightarrow>
     permissionsLoop cid (xs @ ys) b rows = permissionsLoop cid ys b' rows'"
proof (induction xs arbitrary: b rows)
  case Nil
  then show ?case by simp
next
  case (Cons x xs)
  obtain nid p where x: "x = (nid, p)" by (cases x)
  from Cons show ?case
    unfolding x by (auto split: if_splits)
qed

lemma permissionsLoop_invalid_head:
  "\<not> validPermission (nid, p) \<Longrightarrow>
     permissionsLoop cid ((nid, p) # rest) b rows = (Inl (Err (invalidPermissionMessage p nid)), rows)"
  by (simp add: validPermission_def)

lemma permissionsLoop_first_invalid:
  assumes "\<not> list_all validPermission xs"
  shows "\<exists>rows'.
           permissionsLoop cid (takeWhile validPermission xs) b rows
             = (Inr (b \<or> takeWhile validPermission xs \<noteq> []), rows') \<and>
           permissionsLoop cid xs b rows
             = (Inl (Err (invalidPermissionMessage (snd (hd (dropWhile validPermission xs)))
                            (fst (hd (dropWhile validPermission xs))))), rows')"
proof -
  let ?pre = "takeWhile validPermission xs" and ?post = "dropWhile validPermission xs"
  have "list_all validPermission ?pre"
    by (simp add: list_all_iff) (meson set_takeWhileD)
  then obtain rows' where pre: "permissionsLoop cid ?pre b rows = (Inr (b \<or> ?pre \<noteq> []), rows')"
    using permissionsLoop_valid by blast
  from assms have ne: "?post \<noteq> []"
    by (simp add: list_all_iff)
  then obtain nid p rest where post: "?post = (nid, p) # rest"
    by (cases ?post) auto
  have "\<not> validPermission (hd ?post)"
    using ne hd_dropWhile by blast
  then have inv: "\<not> validPermission (nid, p)" by (simp add: post)
  have "permissionsLoop cid xs b rows = permissionsLoop cid (?pre @ ?post) b rows" by simp
  also have "\<dots> = permissionsLoop cid ?post (b \<or> ?pre \<noteq> []) rows'"
    by (rule permissionsLoop_append [OF pre])
  also have "\<dots> = (Inl (Err (invalidPermissionMessage p nid)), rows')"
    unfolding post by (rule permissionsLoop_invalid_head [OF inv])
  finally show ?thesis using pre by (auto simp: post)
qed

lemma find_None_filter: "(find P xs = None) = (filter P xs = [])"
  by (auto simp: find_None_iff filter_empty_conv)

lemma destroyFolder_absent:
  "folderRows cid fid s = [] \<Longrightarrow> destroyFolder cid fid (googleDriveFolders s) = googleDriveFolders s"
  by (simp add: folderRows_def destroyFolder_def filter_empty_conv filter_id_conv)

lemma upsertFolder_twice:
  "upsertFolder cid fid (upsertFolder cid fid rows) = upsertFolder cid fid rows"
  by (simp add: upsertFolder_def find_None_filter)

lemma upsertFolder_rows:
  "filter (\<lambda>f. connectorId f = cid \<and> folderId f = fid) (upsertFolder cid fid rows) =
     (if filter (\<lambda>f. connectorId f = cid \<and> folderId f = fid) rows = []
      then [\<lparr>connectorId = cid, folderId = fid\<rparr>]
      else filter (\<lambda>f. connectorId f = cid \<and> folderId f = fid) rows)"
  by (simp add: upsertFolder_def find_None_filter)

section \<open>Permission changes: an invalid entry\<close>

text \<open>
  Claim C1 says that a batch with an invalid value fails and leaves the folder table as it
  was. The batch \<^verbatim>\<open>{A: "read", B: "write"}\<close> fails on \<open>B\<close>, and by then the row for
  \<open>A\<close> has been inserted.
\<close>

theorem invalid_permission_counterexample:
  "fst (setGoogleDriveConnectorPermissions 1 [(''A'', ''read''), (''B'', ''write'')] exampleState)
     = Inl (Err ''Invalid permission write for node B'') \<and>
   googleDriveFolders (snd (setGoogleDriveConnectorPermissions 1
       [(''A'', ''read''), (''B'', ''write'')] exampleState))
     = googleDriveFolders exampleState @ [\<lparr>connectorId = 1, folderId = ''A''\<rparr>] \<and>
   googleDriveFolders (snd (setGoogleDriveConnectorPermissions 1
       [(''A'', ''read''), (''B'', ''write'')] exampleState))
     \<noteq> googleDriveFolders exampleState"
  by code_simp

text \<open>
  Claim C1, amended. For an existing connector and a batch with an invalid value, the
  call returns the invalid-permission error of the first invalid entry (in iteration
  order) and launches no workflow. The state it leaves is the one that the valid entries
  before that entry leave when applied as a batch of their own (which succeeds), without
  the workflow call: those entries are applied, the later ones are not. When the first
  entry of the batch is the invalid one, the state is unchanged.
\<close>

theorem invalid_permission_stops_at_first_invalid_entry:
  assumes "fetchById cid s = Some connector"
    and "\<not> list_all validPermission permissions"
  shows "fst (setGoogleDriveConnectorPermissions cid permissions s)
           = Inl (Err (invalidPermissionMessage
                         (snd (hd (dropWhile validPermission permissions)))
                         (fst (hd (dropWhile validPermission permissions))))) \<and>
         snd (setGoogleDriveConnectorPermissions cid permissions s)
           = (snd (setGoogleDriveConnectorPermissions cid (takeWhile validPermission permissions) s))
               \<lparr>workflowCalls := workflowCalls s\<rparr> \<and>
         fst (setGoogleDriveConnectorPermissions cid (takeWhile validPermission permissions) s) = Inr () \<and>
         (\<not> validPermission (hd permissions) \<longrightarrow>
            snd (setGoogleDriveConnectorPermissions cid permissions s) = s)"
proof -
  from permissionsLoop_first_invalid [OF assms(2), of cid False "googleDriveFolders s"]
  obtain rows' where
    pre: "permissionsLoop cid (takeWhile validPermission permissions) False (googleDriveFolders s)
            = (Inr (False \<or> takeWhile validPermission permissions \<noteq> []), rows')"
    and full: "permissionsLoop cid permissions False (googleDriveFolders s)
            = (Inl (Err (invalidPermissionMessage (snd (hd (dropWhile validPermission permissions)))
                            (fst (hd (dropWhile validPermission permissions))))), rows')"
    by blast
  have a: "fst (setGoogleDriveConnectorPermissions cid permissions s)
           = Inl (Err (invalidPermissionMessage
                         (snd (hd (dropWhile validPermission permissions)))
                         (fst (hd (dropWhile validPermission permissions)))))"
    by (simp add: setGoogleDriveConnectorPermissions_def assms(1) full)
  have b: "snd (setGoogleDriveConnectorPermissions cid permissions s)
           = (snd (setGoogleDriveConnectorPermissions cid (takeWhile validPermission permissions) s))
               \<lparr>workflowCalls := workflowCalls s\<rparr>"
    by (simp add: setGoogleDriveConnectorPermissions_def assms(1) full pre)
  have c: "fst (setGoogleDriveConnectorPermissions cid (takeWhile validPermission permissions) s) = Inr ()"
    by (simp add: setGoogleDriveConnectorPermissions_def assms(1) pre)
  have d: "\<not> validPermission (hd permissions) \<longrightarrow>
            snd (setGoogleDriveConnectorPermissions cid permissions s) = s"
  proof
    assume h: "\<not> validPermission (hd permissions)"
    from assms(2) have "permissions \<noteq> []" by auto
    then obtain x rest where xs: "permissions = x # rest" by (cases permissions) auto
    with h have "takeWhile validPermission permissions = []" by simp
    with pre full have "permissionsLoop cid permissions False (googleDriveFolders s)
            = (Inl (Err (invalidPermissionMessage (snd (hd (dropWhile validPermission permissions)))
                            (fst (hd (dropWhile validPermission permissions))))), googleDriveFolders s)"
      by simp
    then show "snd (setGoogleDriveConnectorPermissions cid permissions s) = s"
      by (simp add: setGoogleDriveConnectorPermissions_def assms(1))
  qed
  from a b c d show ?thesis by blast
qed

theorem invalid_permission_stops_at_first_invalid_entry_witness:
  "\<not> list_all validPermission [(''A'', ''read''), (''B'', ''write''), (''C'', ''read'')] \<and>
   fst (setGoogleDriveConnectorPermissions 1
          [(''A'', ''read''), (''B'', ''write''), (''C'', ''read'')] exampleState)
     = Inl (Err (invalidPermissionMessage ''write'' ''B'')) \<and>
   snd (setGoogleDriveConnectorPermissions 1
          [(''A'', ''read''), (''B'', ''write''), (''C'', ''read'')] exampleState)
     = (snd (setGoogleDriveConnectorPermissions 1 [(''A'', ''read'')] exampleState))
         \<lparr>workflowCalls := workflowCalls exampleState\<rparr>"
proof -
  let ?batch = "[(''A'', ''read''), (''B'', ''write''), (''C'', ''read'')]"
  have f: "fetchById 1 exampleState =
             Some \<lparr>id' = 1, type' = ''google_drive'', connectionId = ''conn-1'', isPaused = False\<rparr>"
    by (simp add: fetchById_def exampleState_def)
  have nv: "\<not> list_all validPermission ?batch"
    by (simp add: validPermission_def)
  have t: "takeWhile validPermission ?batch = [(''A'', ''read'')]"
    and d: "hd (dropWhile validPermission ?batch) = (''B'', ''write'')"
    by (simp_all add: validPermission_def)
  from invalid_permission_stops_at_first_invalid_entry [OF f nv] nv show ?thesis
    unfolding t d by simp
qed

section \<open>Permission changes: when the full sync is launched\<close>

text \<open>
  Claim C2 says that revoking a folder that has no row launches no full sync. Connector 1
  has no row for \<open>F2\<close>; revoking it succeeds, changes no table, and launches the full sync.
\<close>

theorem revoke_absent_folder_counterexample:
  "folderRows 1 ''F2'' exampleState = [] \<and>
   workflowCalls exampleState = [] \<and>
   setGoogleDriveConnectorPermissions 1 [(''F2'', ''none'')] exampleState
     = (Inr (), exampleState\<lparr>workflowCalls := [FullSyncWorkflow 1 None]\<rparr>)"
  by code_simp

text \<open>
  Claim C2, amended. For an existing connector, revoking a folder that has no row returns
  \<^verbatim>\<open>Ok\<close> and changes nothing in the store, and the full sync is launched. In general the
  full sync is launched exactly when the batch is not empty and all its values are valid,
  whether or not a row was inserted or deleted.
\<close>

theorem full_sync_follows_every_valid_nonempty_batch:
  assumes "fetchById cid s = Some connector"
  shows "(folderRows cid fid s = [] \<longrightarrow>
            setGoogleDriveConnectorPermissions cid [(fid, ''none'')] s
              = (Inr (), s\<lparr>workflowCalls := workflowCalls s @ [FullSyncWorkflow cid None]\<rparr>)) \<and>
         workflowCalls (snd (setGoogleDriveConnectorPermissions cid permissions s))
           = (if permissions \<noteq> [] \<and> list_all validPermission permissions
              then workflowCalls s @ [FullSyncWorkflow cid None]
              else workflowCalls s)"
proof (intro conjI impI)
  assume "folderRows cid fid s = []"
  then have "destroyFolder cid fid (googleDriveFolders s) = googleDriveFolders s"
    by (rule destroyFolder_absent)
  then show "setGoogleDriveConnectorPermissions cid [(fid, ''none'')] s
              = (Inr (), s\<lparr>workflowCalls := workflowCalls s @ [FullSyncWorkflow cid None]\<rparr>)"
    by (simp add: setGoogleDriveConnectorPermissions_def assms)
next
  show "workflowCalls (snd (setGoogleDriveConnectorPermissions cid permissions s))
           = (if permissions \<noteq> [] \<and> list_all validPermission permissions
              then workflowCalls s @ [FullSyncWorkflow cid None]
              else workflowCalls s)"
  proof (cases "list_all validPermission permissions")
    case True
    then obtain rows' where
      "permissionsLoop cid permissions False (googleDriveFolders s)
         = (Inr (False \<or> permissions \<noteq> []), rows')"
      using permissionsLoop_valid by blast
    with True show ?thesis
      by (simp add: setGoogleDriveConnectorPermissions_def assms)
  next
    case False
    from permissionsLoop_first_invalid [OF False, of cid False "googleDriveFolders s"]
    obtain e rows' where "permissionsLoop cid permissions False (googleDriveFolders s) = (Inl e, rows')"
      by blast
    with False show ?thesis
      by (simp add: setGoogleDriveConnectorPermissions_def assms)
  qed
qed

theorem full_sync_follows_every_valid_nonempty_batch_witness:
  "folderRows 1 ''F2'' exampleState = [] \<and>
   setGoogleDriveConnectorPermissions 1 [(''F2'', ''none'')] exampleState
     = (Inr (), exampleState\<lparr>workflowCalls := workflowCalls exampleState @ [FullSyncWorkflow 1 None]\<rparr>) \<and>
   workflowCalls (snd (setGoogleDriveConnectorPermissions 1 [] exampleState)) = workflowCalls exampleState"
proof -
  have f: "fetchById 1 exampleState =
             Some \<lparr>id' = 1, type' = ''google_drive'', connectionId = ''conn-1'', isPaused = False\<rparr>"
    by (simp add: fetchById_def exampleState_def)
  have r: "folderRows 1 ''F2'' exampleState = []"
    by (simp add: folderRows_def exampleState_def)
  from full_sync_follows_every_valid_nonempty_batch [OF f, of "''F2''" "[]"] r show ?thesis
    by simp
qed

section \<open>Permission changes: granting twice\<close>

text \<open>
  Claim C5. Applying \<^verbatim>\<open>{A: "read"}\<close> twice leaves the same folder table as applying it
  once. One application adds at most one row to the table; afterwards the connector has
  one row for \<open>A\<close> when it had none (and exists), and the rows it had otherwise.
\<close>

theorem read_grant_idempotent:
  "googleDriveFolders (snd (setGoogleDriveConnectorPermissions cid [(fid, ''read'')]
       (snd (setGoogleDriveConnectorPermissions cid [(fid, ''read'')] s))))
     = googleDriveFolders (snd (setGoogleDriveConnectorPermissions cid [(fid, ''read'')] s)) \<and>
   length (folderRows cid fid (snd (setGoogleDriveConnectorPermissions cid [(fid, ''read'')] s)))
     = (if fetchById cid s \<noteq> None \<and> folderRows cid fid s = [] then 1
        else length (folderRows cid fid s)) \<and>
   length (googleDriveFolders (snd (setGoogleDriveConnectorPermissions cid [(fid, ''read'')] s)))
     \<le> length (googleDriveFolders s) + 1"
proof (cases "fetchById cid s")
  case None
  then show ?thesis
    by (simp add: setGoogleDriveConnectorPermissions_def)
next
  case (Some connector)
  have once: "setGoogleDriveConnectorPermissions cid [(fid, ''read'')] s
        = (Inr (), s\<lparr>googleDriveFolders := upsertFolder cid fid (googleDriveFolders s),
                         workflowCalls := workflowCalls s @ [FullSyncWorkflow cid None]\<rparr>)"
    by (simp add: setGoogleDriveConnectorPermissions_def Some)
  let ?s1 = "s\<lparr>googleDriveFolders := upsertFolder cid fid (googleDriveFolders s),
                workflowCalls := workflowCalls s @ [FullSyncWorkflow cid None]\<rparr>"
  have "fetchById cid ?s1 = Some connector"
    using Some by (simp add: fetchById_def)
  then have twice: "googleDriveFolders (snd (setGoogleDriveConnectorPermissions cid [(fid, ''read'')] ?s1))
        = upsertFolder cid fid (upsertFolder cid fid (googleDriveFolders s))"
    by (simp add: setGoogleDriveConnectorPermissions_def)
  have len: "length (upsertFolder cid fid (googleDriveFolders s)) \<le> length (googleDriveFolders s) + 1"
    by (simp add: upsertFolder_def)
  show ?thesis
    unfolding once snd_conv twice upsertFolder_twice
    using len Some by (simp add: folderRows_def upsertFolder_rows)
qed

theorem read_grant_idempotent_witness:
  "googleDriveFolders (snd (setGoogleDriveConnectorPermissions 1 [(''A'', ''read'')]
       (snd (setGoogleDriveConnectorPermissions 1 [(''A'', ''read'')] exampleState))))
     = googleDriveFolders exampleState @ [\<lparr>connectorId = 1, folderId = ''A''\<rparr>] \<and>
   googleDriveFolders (snd (setGoogleDriveConnectorPermissions 1 [(''A'', ''read'')] exampleState))
     = googleDriveFolders exampleState @ [\<lparr>connectorId = 1, folderId = ''A''\<rparr>]"
proof -
  have "googleDriveFolders (snd (setGoogleDriveConnectorPermissions 1 [(''A'', ''read'')] exampleState))
     = googleDriveFolders exampleState @ [\<lparr>connectorId = 1, folderId = ''A''\<rparr>]"
    by code_simp
  with read_grant_idempotent [of 1 "''A''" exampleState] show ?thesis by simp
qed

section \<open>The order of a listing\<close>

lemma mset_insertSorted: "mset (insertSorted cmp x xs) = add_mset x (mset xs)"
  by (induction xs) auto

lemma mset_arraySort: "mset (arraySort cmp xs) = mset xs"
  unfolding arraySort_def by (induction xs) (auto simp: mset_insertSorted)

lemma consistent_total:
  "consistentComparator cmp \<Longrightarrow> \<not> cmp a b \<le> 0 \<Longrightarrow> cmp b a \<le> 0"
  unfolding consistentComparator_def by (metis not_le order_less_imp_le)

lemma consistent_trans:
  "consistentComparator cmp \<Longrightarrow> cmp a b \<le> 0 \<Longrightarrow> cmp b c \<le> 0 \<Longrightarrow> cmp a c \<le> 0"
  unfolding consistentComparator_def by blast

lemma consistent_antisym:
  "consistentComparator cmp \<Longrightarrow> (cmp a b < 0) = (0 < cmp b a)"
  unfolding consistentComparator_def by blast

lemma sorted_insertSorted:
  assumes "consistentComparator cmp"
  shows "sorted_wrt (\<lambda>a b. cmp a b \<le> 0) xs \<Longrightarrow>
           sorted_wrt (\<lambda>a b. cmp a b \<le> 0) (insertSorted cmp x xs)"
proof (induction xs)
  case Nil
  then show ?case by simp
next
  case (Cons y ys)
  show ?case
  proof (cases "cmp x y \<le> 0")
    case True
    with Cons.prems have "\<forall>z \<in> set ys. cmp x z \<le> 0"
      using consistent_trans [OF assms] by fastforce
    with True Cons.prems show ?thesis by simp
  next
    case False
    then have "cmp y x \<le> 0" by (rule consistent_total [OF assms])
    with False Cons show ?thesis by (auto simp: set_insertSorted)
  qed
qed

lemma sorted_arraySort:
  "consistentComparator cmp \<Longrightarrow> sorted_wrt (\<lambda>a b. cmp a b \<le> 0) (arraySort cmp xs)"
  unfolding arraySort_def by (induction xs) (simp_all add: sorted_insertSorted)

lemma consistent_compareTitle:
  "consistentComparator lc \<Longrightarrow> consistentComparator (compareTitle lc)"
  unfolding consistentComparator_def compareTitle_def by blast

lemma consistent_compareTypeTitle:
  assumes "consistentComparator lc"
  shows "consistentComparator (compareTypeTitle lc)"
  unfolding consistentComparator_def
proof (intro conjI allI impI)
  fix a b :: ConnectorNode
  have "(lc (title a) (title b) < 0) = (0 < lc (title b) (title a))"
    by (rule consistent_antisym [OF assms])
  then show "(compareTypeTitle lc a b < 0) = (0 < compareTypeTitle lc b a)"
    by (cases "nodeType a"; cases "nodeType b") (simp_all add: compareTypeTitle_def)
next
  fix a b c :: ConnectorNode
  assume h: "compareTypeTitle lc a b \<le> 0 \<and> compareTypeTitle lc b c \<le> 0"
  have t: "lc (title a) (title b) \<le> 0 \<Longrightarrow> lc (title b) (title c) \<le> 0 \<Longrightarrow> lc (title a) (title c) \<le> 0"
    by (rule consistent_trans [OF assms])
  from h t show "compareTypeTitle lc a c \<le> 0"
    by (cases "nodeType a"; cases "nodeType b"; cases "nodeType c")
       (simp_all add: compareTypeTitle_def)
qed

lemma typeTitle_sorted_foldersFirst:
  "sorted_wrt (\<lambda>a b. compareTypeTitle lc a b \<le> 0) nodes \<Longrightarrow>
     foldersFirstThenTitle (\<lambda>a b. lc a b \<le> 0) nodes"
  unfolding foldersFirstThenTitle_def
proof (erule sorted_wrt_mono_rel [rotated])
  fix a b
  assume "compareTypeTitle lc a b \<le> 0"
  then show "(nodeType a = Folder \<or> nodeType b = File) \<and>
             (nodeType a = nodeType b \<longrightarrow> lc (title a) (title b) \<le> 0)"
    unfolding compareTypeTitle_def
    by (cases "nodeType a"; cases "nodeType b") simp_all
qed

lemma title_sorted_foldersFirst:
  assumes "sorted_wrt (\<lambda>a b. compareTitle lc a b \<le> 0) nodes"
    and "\<forall>n \<in> set nodes. nodeType n = Folder"
  shows "foldersFirstThenTitle (\<lambda>a b. lc a b \<le> 0) nodes"
  unfolding foldersFirstThenTitle_def
  using assms(1)
proof (rule sorted_wrt_mono_rel [rotated])
  fix a b
  assume "a \<in> set nodes" "b \<in> set nodes" "compareTitle lc a b \<le> 0"
  with assms(2) show "(nodeType a = Folder \<or> nodeType b = File) \<and>
             (nodeType a = nodeType b \<longrightarrow> lc (title a) (title b) \<le> 0)"
    by (simp add: compareTitle_def)
qed

lemma sortedOk_title:
  assumes "consistentComparator lc"
    and "sortedOk (compareTitle lc) r = Some (Inr nodes)"
    and "\<And>ns n. r = Inr ns \<Longrightarrow> n \<in> set ns \<Longrightarrow> nodeType n = Folder"
  shows "foldersFirstThenTitle (\<lambda>a b. lc a b \<le> 0) nodes"
proof -
  from assms(2) obtain ns where r: "r = Inr ns" and nodes: "nodes = arraySort (compareTitle lc) ns"
    by (auto simp: sortedOk_def split: sum.splits)
  have "sorted_wrt (\<lambda>a b. compareTitle lc a b \<le> 0) nodes"
    unfolding nodes by (rule sorted_arraySort [OF consistent_compareTitle [OF assms(1)]])
  moreover have "\<forall>n \<in> set nodes. nodeType n = Folder"
    unfolding nodes set_arraySort using assms(3) [OF r] by blast
  ultimately show ?thesis by (rule title_sorted_foldersFirst)
qed

lemma lettersCompare_le:
  "(lettersCompare a b \<le> 0) =
     (map toLowerCase a < map toLowerCase b \<or> (map toLowerCase a = map toLowerCase b \<and> b \<le> a))"
  unfolding lettersCompare_def by auto

lemma lettersCompare_less:
  "(lettersCompare a b < 0) =
     (map toLowerCase a < map toLowerCase b \<or> (map toLowerCase a = map toLowerCase b \<and> b < a))"
  unfolding lettersCompare_def by auto

lemma lettersCompare_greater:
  "(0 < lettersCompare a b) =
     (map toLowerCase b < map toLowerCase a \<or> (map toLowerCase a = map toLowerCase b \<and> a < b))"
  unfolding lettersCompare_def by auto

lemma consistent_lettersCompare: "consistentComparator lettersCompare"
  unfolding consistentComparator_def lettersCompare_le lettersCompare_less lettersCompare_greater
  by auto

subsection \<open>The nodes of each branch\<close>

lemma removeNulls_simps:
  "removeNulls [] = []"
  "removeNulls (None # xs) = removeNulls xs"
  "removeNulls (Some x # xs) = x # removeNulls xs"
  by (simp_all add: removeNulls_def List.map_filter_simps)

lemma set_removeNulls: "set (removeNulls xs) = {x. Some x \<in> set xs}"
proof (induction xs)
  case Nil
  then show ?case by (simp add: removeNulls_simps)
next
  case (Cons a xs)
  then show ?case by (cases a) (auto simp: removeNulls_simps)
qed

lemma selectedFolderNode_Some:
  "selectedFolderNode rt c auth cid s f = Inr (Some n) \<Longrightarrow>
     \<exists>fd. getGoogleDriveObject rt auth (folderId f) = Inr (Some fd) \<and>
          n = \<lparr>provider = type' c, internalId = folderId f, parentInternalId = None,
                nodeType = Folder, title = objectName fd, sourceUrl = None,
                dustDocumentId = None, lastUpdatedAt = numberOrNull (updatedAtMs fd),
                expandable = hasLocalChild cid (folderId f) s, permission = ''read''\<rparr>"
  by (auto simp: selectedFolderNode_def split: sum.splits option.splits)

lemma selectedFolderNode_None:
  "selectedFolderNode rt c auth cid s f = Inr None \<Longrightarrow>
     getGoogleDriveObject rt auth (folderId f) = Inr None"
  by (auto simp: selectedFolderNode_def split: sum.splits option.splits)

lemma selectedFolderNode_total:
  "getGoogleDriveObject rt auth (folderId f) = Inr r \<Longrightarrow>
     \<exists>y. selectedFolderNode rt c auth cid s f = Inr y"
  by (cases r) (simp_all add: selectedFolderNode_def)

lemma remoteObjectNode_Folder:
  "remoteObjectNode rt c cid s obj = Inr n \<Longrightarrow> nodeType n = Folder"
  by (auto simp: remoteObjectNode_def split: sum.splits)

lemma sharedDriveNode_Folder:
  "sharedDriveNode rt c auth cid s d = Inr n \<Longrightarrow> nodeType n = Folder"
  by (auto simp: sharedDriveNode_def split: sum.splits option.splits dest: remoteObjectNode_Folder)

lemma remoteFolderNode_Folder:
  "remoteFolderNode rt c auth cid s rf = Inr n \<Longrightarrow> nodeType n = Folder"
  by (auto simp: remoteFolderNode_def split: sum.splits dest: remoteObjectNode_Folder)

lemma readSelectedFolders_sorted:
  assumes "consistentComparator (localeCompare rt)"
    and "readSelectedFolders rt c auth cid s = Some (Inr nodes)"
  shows "foldersFirstThenTitle (\<lambda>a b. localeCompare rt a b \<le> 0) nodes"
proof (rule sortedOk_title [OF assms(1) assms(2) [unfolded readSelectedFolders_def Let_def]])
  fix ns n
  assume r: "map_sum (\<lambda>e. e) removeNulls
               (concurrentExecutor (filter (\<lambda>f. connectorId f = cid) (googleDriveFolders s))
                  (selectedFolderNode rt c auth cid s)) = Inr ns"
    and n: "n \<in> set ns"
  from r obtain ms where ms: "concurrentExecutor (filter (\<lambda>f. connectorId f = cid) (googleDriveFolders s))
                  (selectedFolderNode rt c auth cid s) = Inr ms" and ns: "ns = removeNulls ms"
    by (cases "concurrentExecutor (filter (\<lambda>f. connectorId f = cid) (googleDriveFolders s))
                  (selectedFolderNode rt c auth cid s)") auto
  from n have "Some n \<in> set ms" by (simp add: ns set_removeNulls)
  with ms obtain f where "selectedFolderNode rt c auth cid s f = Inr (Some n)"
    using concurrentExecutor_set by meson
  then show "nodeType n = Folder"
    by (auto dest: selectedFolderNode_Some)
qed

lemma readChildren_sorted:
  assumes "consistentComparator (localeCompare rt)"
    and "readChildren rt c cid pid s = Some (Inr nodes)"
  shows "foldersFirstThenTitle (\<lambda>a b. localeCompare rt a b \<le> 0) nodes"
proof -
  from assms(2) obtain ns where "nodes = arraySort (compareTypeTitle (localeCompare rt)) ns"
    by (auto simp: readChildren_def sortedOk_def split: sum.splits)
  then have "sorted_wrt (\<lambda>a b. compareTypeTitle (localeCompare rt) a b \<le> 0) nodes"
    by (simp add: sorted_arraySort [OF consistent_compareTypeTitle [OF assms(1)]])
  then show ?thesis by (rule typeTitle_sorted_foldersFirst)
qed

lemma discoverDrives_sorted:
  assumes "consistentComparator (localeCompare rt)"
    and "discoverDrives rt c auth cid s = Some (Inr nodes)"
  shows "foldersFirstThenTitle (\<lambda>a b. localeCompare rt a b \<le> 0) nodes"
proof -
  from assms(2) obtain drives where
    r: "sortedOk (compareTitle (localeCompare rt))
          (concurrentExecutor drives (sharedDriveNode rt c auth cid s)) = Some (Inr nodes)"
    by (auto simp: discoverDrives_def split: sum.splits)
  show ?thesis
  proof (rule sortedOk_title [OF assms(1) r])
    fix ns n
    assume "concurrentExecutor drives (sharedDriveNode rt c auth cid s) = Inr ns" "n \<in> set ns"
    then obtain d where "sharedDriveNode rt c auth cid s d = Inr n"
      using concurrentExecutor_set by meson
    then show "nodeType n = Folder" by (rule sharedDriveNode_Folder)
  qed
qed

lemma discoverFolders_sorted:
  assumes "consistentComparator (localeCompare rt)"
    and "discoverFolders rt c auth cid pid s = Some (Inr nodes)"
  shows "foldersFirstThenTitle (\<lambda>a b. localeCompare rt a b \<le> 0) nodes"
proof -
  from assms(2) obtain remoteFolders where
    r: "sortedOk (compareTitle (localeCompare rt))
          (concurrentExecutor remoteFolders (remoteFolderNode rt c auth cid s)) = Some (Inr nodes)"
    by (auto simp: discoverFolders_def split: sum.splits option.splits)
  show ?thesis
  proof (rule sortedOk_title [OF assms(1) r])
    fix ns n
    assume "concurrentExecutor remoteFolders (remoteFolderNode rt c auth cid s) = Inr ns" "n \<in> set ns"
    then obtain rf where "remoteFolderNode rt c auth cid s rf = Inr n"
      using concurrentExecutor_set by meson
    then show "nodeType n = Folder" by (rule remoteFolderNode_Folder)
  qed
qed

text \<open>
  Claim C3 says that the titles of each kind come in case-sensitive lexicographic order.
  The source compares titles with \<^verbatim>\<open>localeCompare\<close>, the collation of the runtime's
  locale, which puts "a" before "B"; in the order of the character codes "B" comes first.
  The children of \<open>F1\<close> are listed as the folder "zz", then the files "a" and "B".
\<close>

theorem listing_order_counterexample:
  "retrieveGoogleDriveConnectorPermissions exampleRuntime 1 (Some ''F1'') (Some ''read'')
     exampleState = Some (Inr exampleChildren) \<and>
   map nodeType exampleChildren = [Folder, File, File] \<and>
   map title exampleChildren = [''zz'', ''a'', ''B''] \<and>
   localeCompare exampleRuntime ''a'' ''B'' = - 1 \<and>
   \<not> ''a'' \<le> ''B'' \<and>
   \<not> foldersFirstThenTitle (\<le>) exampleChildren"
  by code_simp

text \<open>
  Claim C3, amended. For every filter and every parent id, the nodes of a successful
  listing are sorted with respect to the title comparison of the runtime
  (\<^verbatim>\<open>localeCompare\<close>, any consistent comparator): no file comes before a folder, and
  of two nodes of the same kind the earlier one is not after the later one in that
  comparison. The order in which the store or the remote API produced the rows plays no
  part in the statement.
\<close>

theorem listing_sorted_by_localeCompare:
  assumes "consistentComparator (localeCompare rt)"
    and "retrieveGoogleDriveConnectorPermissions rt cid parentNodeId filterPermission s
           = Some (Inr nodes)"
  shows "foldersFirstThenTitle (\<lambda>a b. localeCompare rt a b \<le> 0) nodes"
proof -
  from assms(2) obtain c auth where
    "readSelectedFolders rt c auth cid s = Some (Inr nodes) \<or>
     (\<exists>pid. readChildren rt c cid pid s = Some (Inr nodes)) \<or>
     discoverDrives rt c auth cid s = Some (Inr nodes) \<or>
     (\<exists>pid. discoverFolders rt c auth cid pid s = Some (Inr nodes))"
    by (auto simp: retrieveGoogleDriveConnectorPermissions_def
          split: option.splits sum.splits if_splits)
  then show ?thesis
  proof (elim disjE exE)
    assume "readSelectedFolders rt c auth cid s = Some (Inr nodes)"
    then show ?thesis by (rule readSelectedFolders_sorted [OF assms(1)])
  next
    fix pid assume "readChildren rt c cid pid s = Some (Inr nodes)"
    then show ?thesis by (rule readChildren_sorted [OF assms(1)])
  next
    assume "discoverDrives rt c auth cid s = Some (Inr nodes)"
    then show ?thesis by (rule discoverDrives_sorted [OF assms(1)])
  next
    fix pid assume "discoverFolders rt c auth cid pid s = Some (Inr nodes)"
    then show ?thesis by (rule discoverFolders_sorted [OF assms(1)])
  qed
qed

theorem listing_sorted_by_localeCompare_witness:
  "consistentComparator (localeCompare exampleRuntime) \<and>
   retrieveGoogleDriveConnectorPermissions exampleRuntime 1 (Some ''F1'') (Some ''read'')
     exampleState = Some (Inr exampleChildren) \<and>
   foldersFirstThenTitle (\<lambda>a b. localeCompare exampleRuntime a b \<le> 0) exampleChildren"
proof -
  have c: "consistentComparator (localeCompare exampleRuntime)"
    by (simp add: exampleRuntime_def consistent_lettersCompare)
  from listing_sorted_by_localeCompare [OF c example_read_children] c example_read_children
  show ?thesis by simp
qed

section \<open>The selected folders of a connector\<close>

lemma selected_nodes_ids:
  "concurrentExecutor fs (selectedFolderNode rt c auth cid s) = Inr ms \<Longrightarrow>
     map internalId (removeNulls ms) =
       map folderId (filter (\<lambda>f. \<exists>fd. getGoogleDriveObject rt auth (folderId f) = Inr (Some fd)) fs)"
proof (induction fs arbitrary: ms)
  case Nil
  then show ?case by (simp add: removeNulls_simps)
next
  case (Cons f fs)
  from Cons.prems obtain y ys where y: "selectedFolderNode rt c auth cid s f = Inr y"
    and ys: "concurrentExecutor fs (selectedFolderNode rt c auth cid s) = Inr ys"
    and ms: "ms = y # ys"
    by (auto split: sum.splits)
  note ih = Cons.IH [OF ys]
  show ?case
  proof (cases y)
    case None
    with y have "getGoogleDriveObject rt auth (folderId f) = Inr None"
      by (simp add: selectedFolderNode_None)
    with ih None show ?thesis by (simp add: ms removeNulls_simps)
  next
    case (Some n)
    with y obtain fd where "getGoogleDriveObject rt auth (folderId f) = Inr (Some fd)"
      and "internalId n = folderId f"
      by (auto dest: selectedFolderNode_Some)
    with ih Some show ?thesis by (simp add: ms removeNulls_simps)
  qed
qed

lemma readSelectedFolders_result:
  assumes "readSelectedFolders rt c auth cid s = Some (Inr nodes)"
  shows "mset (map internalId nodes) =
           mset (map folderId
             (filter (\<lambda>f. connectorId f = cid \<and>
                        (\<exists>fd. getGoogleDriveObject rt auth (folderId f) = Inr (Some fd)))
                (googleDriveFolders s)))"
    and "\<forall>n \<in> set nodes. \<exists>fd. getGoogleDriveObject rt auth (internalId n) = Inr (Some fd) \<and>
           title n = objectName fd \<and> lastUpdatedAt n = numberOrNull (updatedAtMs fd) \<and>
           nodeType n = Folder \<and> permission n = ''read''"
proof -
  define folders where "folders = filter (\<lambda>f. connectorId f = cid) (googleDriveFolders s)"
  from assms obtain ms where
    ms: "concurrentExecutor folders (selectedFolderNode rt c auth cid s) = Inr ms"
    and nodes: "nodes = arraySort (compareTitle (localeCompare rt)) (removeNulls ms)"
    unfolding readSelectedFolders_def Let_def sortedOk_def folders_def
    by (cases "concurrentExecutor (filter (\<lambda>f. connectorId f = cid) (googleDriveFolders s))
                 (selectedFolderNode rt c auth cid s)") auto
  have "mset (map internalId nodes) = mset (map internalId (removeNulls ms))"
    unfolding nodes by (simp add: mset_arraySort)
  also have "\<dots> = mset (map folderId
       (filter (\<lambda>f. \<exists>fd. getGoogleDriveObject rt auth (folderId f) = Inr (Some fd)) folders))"
    by (simp only: selected_nodes_ids [OF ms])
  also have "filter (\<lambda>f. \<exists>fd. getGoogleDriveObject rt auth (folderId f) = Inr (Some fd)) folders
      = filter (\<lambda>f. connectorId f = cid \<and>
                        (\<exists>fd. getGoogleDriveObject rt auth (folderId f) = Inr (Some fd)))
                (googleDriveFolders s)"
    unfolding folders_def by (simp add: conj_commute)
  finally show "mset (map internalId nodes) =
           mset (map folderId
             (filter (\<lambda>f. connectorId f = cid \<and>
                        (\<exists>fd. getGoogleDriveObject rt auth (folderId f) = Inr (Some fd)))
                (googleDriveFolders s)))" .
  show "\<forall>n \<in> set nodes. \<exists>fd. getGoogleDriveObject rt auth (internalId n) = Inr (Some fd) \<and>
           title n = objectName fd \<and> lastUpdatedAt n = numberOrNull (updatedAtMs fd) \<and>
           nodeType n = Folder \<and> permission n = ''read''"
  proof
    fix n assume "n \<in> set nodes"
    then have "Some n \<in> set ms" by (simp add: nodes set_arraySort set_removeNulls)
    with ms obtain f where "selectedFolderNode rt c auth cid s f = Inr (Some n)"
      using concurrentExecutor_set by meson
    from selectedFolderNode_Some [OF this]
    show "\<exists>fd. getGoogleDriveObject rt auth (internalId n) = Inr (Some fd) \<and>
           title n = objectName fd \<and> lastUpdatedAt n = numberOrNull (updatedAtMs fd) \<and>
           nodeType n = Folder \<and> permission n = ''read''"
      by auto
  qed
qed

lemma readSelectedFolders_total:
  assumes "\<forall>f \<in> set (googleDriveFolders s). connectorId f = cid \<longrightarrow>
             (\<exists>r. getGoogleDriveObject rt auth (folderId f) = Inr r)"
  shows "\<exists>nodes. readSelectedFolders rt c auth cid s = Some (Inr nodes)"
proof -
  have "\<exists>ms. concurrentExecutor (filter (\<lambda>f. connectorId f = cid) (googleDriveFolders s))
               (selectedFolderNode rt c auth cid s) = Inr ms"
  proof (rule concurrentExecutor_total)
    fix f assume "f \<in> set (filter (\<lambda>f. connectorId f = cid) (googleDriveFolders s))"
    with assms obtain r where "getGoogleDriveObject rt auth (folderId f) = Inr r" by auto
    then show "\<exists>y. selectedFolderNode rt c auth cid s f = Inr y"
      by (rule selectedFolderNode_total)
  qed
  then show ?thesis
    by (auto simp: readSelectedFolders_def sortedOk_def)
qed

lemma retrieve_read_root:
  "fetchById cid s = Some c \<Longrightarrow> getAuthObject rt (connectionId c) = Inr auth \<Longrightarrow>
     retrieveGoogleDriveConnectorPermissions rt cid None (Some ''read'') s
       = readSelectedFolders rt c auth cid s"
  by (simp add: retrieveGoogleDriveConnectorPermissions_def)

lemma revoke_state:
  "fetchById cid s = Some c \<Longrightarrow>
     fetchById cid (snd (setGoogleDriveConnectorPermissions cid [(fid, ''none'')] s)) = Some c \<and>
     googleDriveFolders (snd (setGoogleDriveConnectorPermissions cid [(fid, ''none'')] s))
       = destroyFolder cid fid (googleDriveFolders s)"
  by (simp add: setGoogleDriveConnectorPermissions_def fetchById_def)

text \<open>
  Claim C4. Take an existing connector whose credentials are available. The listing with
  filter \<^verbatim>\<open>"read"\<close> and no parent succeeds whenever no lookup of a selected folder
  throws; a folder that the remote API does not have (404) is no error. The ids of a
  successful listing are, with multiplicity, the folder ids of the connector's rows that
  the remote API has, and each node carries the remote name as title, the remote update
  time (\<^verbatim>\<open>null\<close> for a missing or zero time), kind folder and permission read. After a
  folder has been revoked, no successful listing contains it.
\<close>

theorem selected_folders_listing:
  assumes c: "fetchById cid s = Some c" and auth: "getAuthObject rt (connectionId c) = Inr auth"
  shows "((\<forall>f \<in> set (googleDriveFolders s). connectorId f = cid \<longrightarrow>
             (\<exists>r. getGoogleDriveObject rt auth (folderId f) = Inr r)) \<longrightarrow>
          (\<exists>nodes. retrieveGoogleDriveConnectorPermissions rt cid None (Some ''read'') s
                     = Some (Inr nodes))) \<and>
         (\<forall>nodes. retrieveGoogleDriveConnectorPermissions rt cid None (Some ''read'') s
                     = Some (Inr nodes) \<longrightarrow>
            mset (map internalId nodes) =
              mset (map folderId
                (filter (\<lambda>f. connectorId f = cid \<and>
                           (\<exists>fd. getGoogleDriveObject rt auth (folderId f) = Inr (Some fd)))
                   (googleDriveFolders s))) \<and>
            (\<forall>n \<in> set nodes. \<exists>fd. getGoogleDriveObject rt auth (internalId n) = Inr (Some fd) \<and>
               title n = objectName fd \<and> lastUpdatedAt n = numberOrNull (updatedAtMs fd) \<and>
               nodeType n = Folder \<and> permission n = ''read'')) \<and>
         (\<forall>fid nodes.
            retrieveGoogleDriveConnectorPermissions rt cid None (Some ''read'')
              (snd (setGoogleDriveConnectorPermissions cid [(fid, ''none'')] s)) = Some (Inr nodes)
            \<longrightarrow> fid \<notin> set (map internalId nodes))"
proof (intro conjI allI impI)
  assume "\<forall>f \<in> set (googleDriveFolders s). connectorId f = cid \<longrightarrow>
             (\<exists>r. getGoogleDriveObject rt auth (folderId f) = Inr r)"
  then show "\<exists>nodes. retrieveGoogleDriveConnectorPermissions rt cid None (Some ''read'') s
                     = Some (Inr nodes)"
    unfolding retrieve_read_root [OF c auth] by (rule readSelectedFolders_total)
next
  fix nodes
  assume "retrieveGoogleDriveConnectorPermissions rt cid None (Some ''read'') s = Some (Inr nodes)"
  then have r: "readSelectedFolders rt c auth cid s = Some (Inr nodes)"
    by (simp add: retrieve_read_root [OF c auth])
  show "mset (map internalId nodes) =
              mset (map folderId
                (filter (\<lambda>f. connectorId f = cid \<and>
                           (\<exists>fd. getGoogleDriveObject rt auth (folderId f) = Inr (Some fd)))
                   (googleDriveFolders s)))"
    by (rule readSelectedFolders_result(1) [OF r])
  show "\<forall>n \<in> set nodes. \<exists>fd. getGoogleDriveObject rt auth (internalId n) = Inr (Some fd) \<and>
               title n = objectName fd \<and> lastUpdatedAt n = numberOrNull (updatedAtMs fd) \<and>
               nodeType n = Folder \<and> permission n = ''read''"
    by (rule readSelectedFolders_result(2) [OF r])
next
  fix fid nodes
  let ?s' = "snd (setGoogleDriveConnectorPermissions cid [(fid, ''none'')] s)"
  assume a: "retrieveGoogleDriveConnectorPermissions rt cid None (Some ''read'') ?s' = Some (Inr nodes)"
  from revoke_state [OF c] have c': "fetchById cid ?s' = Some c"
    and rows: "googleDriveFolders ?s' = destroyFolder cid fid (googleDriveFolders s)"
    by simp_all
  from a have r: "readSelectedFolders rt c auth cid ?s' = Some (Inr nodes)"
    by (simp add: retrieve_read_root [OF c' auth])
  have "set (map internalId nodes) = set_mset (mset (map internalId nodes))" by simp
  also have "\<dots> = set (map folderId
                (filter (\<lambda>f. connectorId f = cid \<and>
                           (\<exists>fd. getGoogleDriveObject rt auth (folderId f) = Inr (Some fd)))
                   (destroyFolder cid fid (googleDriveFolders s))))"
    unfolding readSelectedFolders_result(1) [OF r] rows by simp
  finally show "fid \<notin> set (map internalId nodes)"
    by (auto simp: destroyFolder_def)
qed

theorem selected_folders_listing_witness:
  "retrieveGoogleDriveConnectorPermissions exampleRuntime 1 None (Some ''read'') exampleState
     = Some (Inr exampleSelected) \<and>
   map folderId (filter (\<lambda>f. connectorId f = 1) (googleDriveFolders exampleState)) = [''F1'', ''F9''] \<and>
   getGoogleDriveObject exampleRuntime ''token'' ''F9'' = Inr None \<and>
   mset (map internalId exampleSelected) = {#''F1''#} \<and>
   map title exampleSelected = [''Docs v2'']"
proof -
  have f: "fetchById 1 exampleState =
             Some \<lparr>id' = 1, type' = ''google_drive'', connectionId = ''conn-1'', isPaused = False\<rparr>"
    by (simp add: fetchById_def exampleState_def)
  have a: "getAuthObject exampleRuntime
             (connectionId \<lparr>id' = 1, type' = ''google_drive'', connectionId = ''conn-1'', isPaused = False\<rparr>)
           = Inr ''token''"
    by (simp add: exampleRuntime_def)
  have e: "retrieveGoogleDriveConnectorPermissions exampleRuntime 1 None (Some ''read'') exampleState
     = Some (Inr exampleSelected)"
    by code_simp
  have rows: "filter (\<lambda>f. connectorId f = 1 \<and>
                   (\<exists>fd. getGoogleDriveObject exampleRuntime ''token'' (folderId f) = Inr (Some fd)))
                (googleDriveFolders exampleState) = [\<lparr>connectorId = 1, folderId = ''F1''\<rparr>]"
    by (simp add: exampleState_def exampleRuntime_def)
  from selected_folders_listing [OF f a] e
  have "mset (map internalId exampleSelected) =
              mset (map folderId
                (filter (\<lambda>f. connectorId f = 1 \<and>
                           (\<exists>fd. getGoogleDriveObject exampleRuntime ''token'' (folderId f) = Inr (Some fd)))
                   (googleDriveFolders exampleState)))"
    by blast
  then have m: "mset (map internalId exampleSelected) = {#''F1''#}"
    unfolding rows by simp
  have "map folderId (filter (\<lambda>f. connectorId f = 1) (googleDriveFolders exampleState)) = [''F1'', ''F9'']"
    by (simp add: exampleState_def)
  moreover have "getGoogleDriveObject exampleRuntime ''token'' ''F9'' = Inr None"
    by (simp add: exampleRuntime_def)
  moreover have "map title exampleSelected = [''Docs v2'']"
    by (simp add: exampleSelected_def)
  ultimately show ?thesis using e m by simp
qed

end
